theory Spec2Isabelle
  imports
    Main
    "HOL-Library.Word"
    "HOL-Library.List_Lexorder"
    "HOL-Library.Sublist"
    "HOL-Library.Multiset"
begin

unbundle bit_operations_syntax

section \<open>Python values\<close>

text \<open>
  A Python \<open>str\<close> is a sequence of Unicode code points, a \<open>bytes\<close> object a sequence
  of octets. String literals of the source are ASCII and are written with \<open>ascii\<close>.
\<close>

type_synonym ustr = "nat list"

type_synonym bytes = "8 word list"

definition ascii :: "string \<Rightarrow> ustr" where
  "ascii s = map of_char s"

datatype exn =
    KeyError
  | TypeError
  | ValueError
  | AttributeError
  | UnicodeEncodeError
  | UnicodeDecodeError
  | FileNotFoundError
  | JSONDecodeError
  | OSError

text \<open>
  The values the serializers are applied to: the JSON value kinds (\<open>None\<close>, \<open>bool\<close>,
  \<open>int\<close>, \<open>float\<close> as its IEEE-754 binary64 pattern, \<open>str\<close>, \<open>list\<close>, \<open>dict\<close>), an
  opaque object that \<open>json\<close> cannot serialize (\<open>PObj\<close>: a \<open>set\<close>, a \<open>bytes\<close>, ...), and
  dictionary keys that are strings or integers. A \<open>dict\<close> is the list of its items in
  insertion order; Python keeps its keys distinct (\<open>wf_value\<close> below).

  Not modelled: tuples and keys of other types (\<open>float\<close>, \<open>bool\<close>, \<open>None\<close>), which
  neither the literals of the program nor \<open>json.load\<close> produce, and the recursion limit
  of the interpreter.
\<close>

datatype pykey = KStr ustr | KInt int

datatype pyval =
    PNone
  | PBool bool
  | PInt int
  | PFloat "64 word"
  | PStr ustr
  | PList "pyval list"
  | PDict "(pykey \<times> pyval) list"
  | PObj nat

fun wf_value :: "pyval \<Rightarrow> bool" where
  "wf_value (PList xs) = list_all wf_value xs"
| "wf_value (PDict kvs) = (distinct (map fst kvs) \<and> list_all (\<lambda>kv. wf_value (snd kv)) kvs)"
| "wf_value v = True"

text \<open>
  What the program takes from the Python runtime and its standard library, and from the
  file system: \<open>float.__repr__\<close> on finite floats, \<open>repr\<close> of containers and objects,
  \<open>hashlib.sha256(b).hexdigest()\<close>, \<open>open(p, 'r').read()\<close>, \<open>open(p, 'rb').read()\<close>,
  \<open>json.loads\<close>, and \<open>sys.get_int_max_str_digits()\<close>, the largest number of decimal digits
  an integer may have when it is converted to a string (4300 unless configured; 0 for
  no limit, as in interpreters that have none; otherwise at least 640). Every theorem
  below holds for all of them.
\<close>

record runtime =
  float_repr :: "64 word \<Rightarrow> ustr"
  py_repr :: "pyval \<Rightarrow> ustr"
  sha256_hexdigest :: "bytes \<Rightarrow> ustr"
  read_text :: "ustr \<Rightarrow> exn + ustr"
  read_bytes :: "ustr \<Rightarrow> exn + bytes"
  json_loads :: "ustr \<Rightarrow> exn + pyval"
  int_max_str_digits :: nat

primrec mapM_exn :: "('a \<Rightarrow> exn + 'b) \<Rightarrow> 'a list \<Rightarrow> exn + 'b list" where
  "mapM_exn f [] = Inr []"
| "mapM_exn f (x # xs) =
     (case f x of
        Inl e \<Rightarrow> Inl e
      | Inr y \<Rightarrow> (case mapM_exn f xs of Inl e \<Rightarrow> Inl e | Inr ys \<Rightarrow> Inr (y # ys)))"

lemma mapM_exn_cong [fundef_cong]:
  "xs = ys \<Longrightarrow> (\<And>x. x \<in> set ys \<Longrightarrow> f x = g x) \<Longrightarrow> mapM_exn f xs = mapM_exn g ys"
  by (induction ys arbitrary: xs) (auto split: sum.splits)

subsection \<open>Floats\<close>

definition pos_inf :: "64 word" where
  "pos_inf = 0x7FF0000000000000"

definition neg_inf :: "64 word" where
  "neg_inf = 0xFFF0000000000000"

definition is_nan :: "64 word \<Rightarrow> bool" where
  "is_nan w = (drop_bit 52 w AND 0x7FF = 0x7FF \<and> w AND 0xFFFFFFFFFFFFF \<noteq> 0)"

definition is_zero :: "64 word \<Rightarrow> bool" where
  "is_zero w = (w AND 0x7FFFFFFFFFFFFFFF = 0)"

text \<open>Python's \<open>==\<close> and \<open>!=\<close> on two floats.\<close>

definition float_eq :: "64 word \<Rightarrow> 64 word \<Rightarrow> bool" where
  "float_eq a b = (\<not> is_nan a \<and> \<not> is_nan b \<and> (a = b \<or> (is_zero a \<and> is_zero b)))"

definition float_ne :: "64 word \<Rightarrow> 64 word \<Rightarrow> bool" where
  "float_ne a b = (\<not> float_eq a b)"

subsection \<open>\<open>json.dumps(..., ensure_ascii=False)\<close>\<close>

fun digits :: "nat \<Rightarrow> ustr" where
  "digits n = (if n < 10 then [48 + n] else digits (n div 10) @ [48 + n mod 10])"

definition int_repr :: "int \<Rightarrow> ustr" where
  "int_repr i = (if i < 0 then 45 # digits (nat (- i)) else digits (nat i))"

definition hex_digit :: "nat \<Rightarrow> nat" where
  "hex_digit d = (if d < 10 then 48 + d else 87 + d)"

text \<open>
  The escape table of \<open>json.encoder\<close> without \<open>ensure_ascii\<close>: the quote, the backslash
  and the code points below \<open>0x20\<close> are escaped, everything else is kept.
\<close>

definition escape_char :: "nat \<Rightarrow> ustr" where
  "escape_char c =
     (if c = 0x22 then ascii [CHR 0x5C, CHR 0x22]
      else if c = 0x5C then ascii [CHR 0x5C, CHR 0x5C]
      else if c = 0x08 then ascii [CHR 0x5C, CHR ''b'']
      else if c = 0x0C then ascii [CHR 0x5C, CHR ''f'']
      else if c = 0x0A then ascii [CHR 0x5C, CHR ''n'']
      else if c = 0x0D then ascii [CHR 0x5C, CHR ''r'']
      else if c = 0x09 then ascii [CHR 0x5C, CHR ''t'']
      else if c < 0x20 then ascii [CHR 0x5C, CHR ''u'', CHR ''0'', CHR ''0'']
                              @ [hex_digit (c div 16), hex_digit (c mod 16)]
      else [c])"

definition json_escape :: "ustr \<Rightarrow> ustr" where
  "json_escape s = concat (map escape_char s)"

definition encode_basestring :: "ustr \<Rightarrow> ustr" where
  "encode_basestring s = 0x22 # json_escape s @ [0x22]"

definition floatstr :: "runtime \<Rightarrow> 64 word \<Rightarrow> ustr" where
  "floatstr rt w =
     (if float_ne w w then ascii ''NaN''
      else if float_eq w pos_inf then ascii ''Infinity''
      else if float_eq w neg_inf then ascii ''-Infinity''
      else float_repr rt w)"

text \<open>
  \<open>int.__repr__\<close> as \<open>json\<close> calls it: an integer with more decimal digits than the
  limit raises \<open>ValueError\<close>.
\<close>

definition int_str :: "runtime \<Rightarrow> int \<Rightarrow> exn + ustr" where
  "int_str rt i =
     (if 0 < int_max_str_digits rt \<and> int_max_str_digits rt < length (digits (nat \<bar>i\<bar>))
      then Inl ValueError
      else Inr (int_repr i))"

text \<open>The string that \<open>json\<close> writes for a dictionary key.\<close>

definition key_str :: "runtime \<Rightarrow> pykey \<Rightarrow> exn + ustr" where
  "key_str rt k = (case k of KStr s \<Rightarrow> Inr s | KInt i \<Rightarrow> int_str rt i)"

fun join :: "ustr \<Rightarrow> ustr list \<Rightarrow> ustr" where
  "join sep [] = []"
| "join sep [x] = x"
| "join sep (x # y # ys) = x @ sep @ join sep (y # ys)"

lemma size_dict_value [termination_simp]:
  "(k, v) \<in> set kvs \<Longrightarrow> size v < Suc (size_list (size_prod (\<lambda>_. 0) size) kvs)"
  by (induction kvs) auto

lemma size_dict_item [termination_simp]:
  "kv \<in> set kvs \<Longrightarrow> size (snd kv) < Suc (size_list (size_prod (\<lambda>_. 0) size) kvs)"
  by (cases kv) (simp add: size_dict_value)

text \<open>
  \<open>json_dumps rt item_separator key_separator v\<close> is
  \<open>json.dumps(v, separators=(item_separator, key_separator), ensure_ascii=False)\<close>.
\<close>

fun json_dumps :: "runtime \<Rightarrow> ustr \<Rightarrow> ustr \<Rightarrow> pyval \<Rightarrow> exn + ustr" where
  "json_dumps rt isep ksep PNone = Inr (ascii ''null'')"
| "json_dumps rt isep ksep (PBool b) = Inr (if b then ascii ''true'' else ascii ''false'')"
| "json_dumps rt isep ksep (PInt i) = int_str rt i"
| "json_dumps rt isep ksep (PFloat w) = Inr (floatstr rt w)"
| "json_dumps rt isep ksep (PStr s) = Inr (encode_basestring s)"
| "json_dumps rt isep ksep (PList xs) =
     (if xs = [] then Inr (ascii ''[]'')
      else case mapM_exn (json_dumps rt isep ksep) xs of
             Inl e \<Rightarrow> Inl e
           | Inr cs \<Rightarrow> Inr (ascii ''['' @ join isep cs @ ascii '']''))"
| "json_dumps rt isep ksep (PDict kvs) =
     (if kvs = [] then Inr (ascii ''{}'')
      else case mapM_exn
                  (\<lambda>kv. case key_str rt (fst kv) of
                          Inl e \<Rightarrow> Inl e
                        | Inr k \<Rightarrow>
                            (case json_dumps rt isep ksep (snd kv) of
                               Inl e \<Rightarrow> Inl e
                             | Inr c \<Rightarrow> Inr (encode_basestring k @ ksep @ c)))
                  kvs of
             Inl e \<Rightarrow> Inl e
           | Inr cs \<Rightarrow> Inr (ascii ''{'' @ join isep cs @ ascii ''}''))"
| "json_dumps rt isep ksep (PObj n) = Inl TypeError"

section \<open>get-compose-hash.py\<close>

subsection \<open>\<open>sort_object\<close>\<close>

definition is_KStr :: "pykey \<Rightarrow> bool" where
  "is_KStr k = (case k of KStr _ \<Rightarrow> True | KInt _ \<Rightarrow> False)"

definition is_KInt :: "pykey \<Rightarrow> bool" where
  "is_KInt k = (case k of KStr _ \<Rightarrow> False | KInt _ \<Rightarrow> True)"

definition str_of_key :: "pykey \<Rightarrow> ustr" where
  "str_of_key k = (case k of KStr s \<Rightarrow> s | KInt _ \<Rightarrow> [])"

definition int_of_key :: "pykey \<Rightarrow> int" where
  "int_of_key k = (case k of KStr _ \<Rightarrow> 0 | KInt i \<Rightarrow> i)"

text \<open>
  \<open>sorted(obj.items())\<close>: the items are compared as tuples, and since the keys of a
  dictionary differ the comparison is decided by the keys. Strings are ordered by code
  points, integers by value; comparing a string with an integer raises \<open>TypeError\<close>,
  which happens exactly when the dictionary has keys of both kinds.
\<close>

definition sorted_items :: "(pykey \<times> pyval) list \<Rightarrow> exn + (pykey \<times> pyval) list" where
  "sorted_items kvs =
     (if list_all (\<lambda>kv. is_KStr (fst kv)) kvs then Inr (sort_key (\<lambda>kv. str_of_key (fst kv)) kvs)
      else if list_all (\<lambda>kv. is_KInt (fst kv)) kvs then Inr (sort_key (\<lambda>kv. int_of_key (fst kv)) kvs)
      else Inl TypeError)"

lemma sorted_items_set: "sorted_items kvs = Inr s \<Longrightarrow> set s = set kvs"
  by (auto simp: sorted_items_def split: if_splits)

function sort_object :: "pyval \<Rightarrow> exn + pyval" where
  "sort_object PNone = Inr PNone"
| "sort_object (PList xs) =
     (case mapM_exn sort_object xs of Inl e \<Rightarrow> Inl e | Inr ys \<Rightarrow> Inr (PList ys))"
| "sort_object (PDict kvs) =
     (case sorted_items kvs of
        Inl e \<Rightarrow> Inl e
      | Inr s \<Rightarrow>
          (case mapM_exn
                  (\<lambda>kv. case sort_object (snd kv) of
                          Inl e \<Rightarrow> Inl e
                        | Inr v \<Rightarrow> Inr (fst kv, v))
                  s of
             Inl e \<Rightarrow> Inl e
           | Inr s' \<Rightarrow> Inr (PDict s')))"
| "sort_object (PBool b) = Inr (PBool b)"
| "sort_object (PInt i) = Inr (PInt i)"
| "sort_object (PFloat w) = Inr (PFloat w)"
| "sort_object (PStr s) = Inr (PStr s)"
| "sort_object (PObj n) = Inr (PObj n)"
  by pat_completeness auto
termination
proof (relation "measure size")
  show "wf (measure (size :: pyval \<Rightarrow> nat))" by simp
next
  fix xs :: "pyval list" and x
  assume "x \<in> set xs"
  then show "(x, PList xs) \<in> measure size"
    by (induction xs) auto
next
  fix kvs s :: "(pykey \<times> pyval) list" and kv
  assume "sorted_items kvs = Inr s" and "kv \<in> set s"
  then have "kv \<in> set kvs" by (simp add: sorted_items_set)
  then show "(snd kv, PDict kvs) \<in> measure size"
    by (simp add: size_dict_item)
qed

subsection \<open>\<open>to_deterministic_json\<close>\<close>

fun convert_special_values :: "pyval \<Rightarrow> pyval" where
  "convert_special_values (PFloat w) =
     (if float_ne w w then PNone
      else if float_eq w pos_inf \<or> float_eq w neg_inf then PNone
      else PFloat w)"
| "convert_special_values v = v"

fun process_data :: "pyval \<Rightarrow> pyval" where
  "process_data (PDict kvs) = PDict (map (\<lambda>kv. (fst kv, process_data (snd kv))) kvs)"
| "process_data (PList xs) = PList (map process_data xs)"
| "process_data v = convert_special_values v"

definition to_deterministic_json :: "runtime \<Rightarrow> pyval \<Rightarrow> exn + ustr" where
  "to_deterministic_json rt data =
     (case sort_object data of
        Inl e \<Rightarrow> Inl e
      | Inr sorted_data \<Rightarrow>
          (let processed_data = process_data sorted_data
           in json_dumps rt (ascii '','') (ascii '':'') processed_data))"

subsection \<open>String operations of Python\<close>

text \<open>\<open>nl_join ls\<close> is the text whose lines are \<open>ls\<close>: \<open>'\n'.join(ls)\<close>.\<close>

fun nl_join :: "string list \<Rightarrow> string" where
  "nl_join [] = []"
| "nl_join [l] = l"
| "nl_join (l # m # ls) = l @ CHR 0x0A # nl_join (m # ls)"

text \<open>\<open>s[1:-1]\<close>\<close>

definition slice_1_m1 :: "ustr \<Rightarrow> ustr" where
  "slice_1_m1 s = butlast (tl s)"

text \<open>
  \<open>s.replace(old, new)\<close>: every occurrence of \<open>old\<close>, found from left to right without
  overlaps, is replaced; the text put in is not scanned again.
\<close>

fun replace_scan :: "ustr \<Rightarrow> ustr \<Rightarrow> ustr \<Rightarrow> ustr" where
  "replace_scan old new [] = []"
| "replace_scan old new (c # cs) =
     (if old \<noteq> [] \<and> prefix old (c # cs)
      then new @ replace_scan old new (drop (length old - 1) cs)
      else c # replace_scan old new cs)"

definition str_replace :: "ustr \<Rightarrow> ustr \<Rightarrow> ustr \<Rightarrow> ustr" where
  "str_replace s old new =
     (if old = [] then new @ concat (map (\<lambda>c. c # new) s) else replace_scan old new s)"

text \<open>\<open>d[k]\<close>, \<open>d.get(k)\<close> and \<open>d[k] = v\<close> on a dictionary.\<close>

definition dict_getitem :: "(pykey \<times> pyval) list \<Rightarrow> pykey \<Rightarrow> exn + pyval" where
  "dict_getitem d k = (case map_of d k of None \<Rightarrow> Inl KeyError | Some v \<Rightarrow> Inr v)"

definition dict_get :: "(pykey \<times> pyval) list \<Rightarrow> pykey \<Rightarrow> pyval" where
  "dict_get d k = (case map_of d k of None \<Rightarrow> PNone | Some v \<Rightarrow> v)"

fun dict_setitem :: "(pykey \<times> pyval) list \<Rightarrow> pykey \<Rightarrow> pyval \<Rightarrow> (pykey \<times> pyval) list" where
  "dict_setitem [] k v = [(k, v)]"
| "dict_setitem (kv # d) k v = (if fst kv = k then (k, v) # d else kv # dict_setitem d k v)"

text \<open>\<open>s.encode("utf-8")\<close>: a surrogate code point cannot be encoded.\<close>

definition utf8_char :: "nat \<Rightarrow> exn + bytes" where
  "utf8_char c =
     (if c < 0x80 then Inr [of_nat c]
      else if c < 0x800 then Inr [of_nat (0xC0 + c div 64), of_nat (0x80 + c mod 64)]
      else if 0xD800 \<le> c \<and> c \<le> 0xDFFF then Inl UnicodeEncodeError
      else if c < 0x10000 then
        Inr [of_nat (0xE0 + c div 4096), of_nat (0x80 + (c div 64) mod 64),
             of_nat (0x80 + c mod 64)]
      else if c < 0x110000 then
        Inr [of_nat (0xF0 + c div 262144), of_nat (0x80 + (c div 4096) mod 64),
             of_nat (0x80 + (c div 64) mod 64), of_nat (0x80 + c mod 64)]
      else Inl UnicodeEncodeError)"

definition utf8_encode :: "ustr \<Rightarrow> exn + bytes" where
  "utf8_encode s = (case mapM_exn utf8_char s of Inl e \<Rightarrow> Inl e | Inr bs \<Rightarrow> Inr (concat bs))"

subsection \<open>\<open>to_dstack_format_json\<close> and \<open>get_compose_hash\<close>\<close>

definition template :: ustr where
  \<open>template = ascii (nl_join
    [''{'',
     ''    "allowed_envs":[],'',
     ''    "default_gateway_domain":null,'',
     ''    "docker_compose_file":"DOCKER_COMPOSE_CONTENT",'',
     ''    "features":['',
     ''        "kms",'',
     ''        "tproxy-net"'',
     ''    ],'',
     ''    "gateway_enabled":true,'',
     ''    "kms_enabled":true,'',
     ''    "local_key_provider_enabled":false,'',
     ''    "manifest_version":2,'',
     ''    "name":"simple-det-app-verification",'',
     ''    "no_instance_id":false,'',
     ''    "pre_launch_script":"PRE_LAUNCH_SCRIPT",'',
     ''    "public_logs":true,'',
     ''    "public_sysinfo":true,'',
     ''    "runner":"docker-compose",'',
     ''    "salt":"05fcefaecd984204bb6ccf16938eaad5",'',
     ''    "tproxy_enabled":true'',
     ''}''])\<close>

definition to_dstack_format_json :: "runtime \<Rightarrow> (pykey \<times> pyval) list \<Rightarrow> exn + ustr" where
  "to_dstack_format_json rt data =
     (case dict_getitem data (KStr (ascii ''docker_compose_file'')) of
        Inl e \<Rightarrow> Inl e
      | Inr docker_compose_content \<Rightarrow>
     (case dict_getitem data (KStr (ascii ''pre_launch_script'')) of
        Inl e \<Rightarrow> Inl e
      | Inr pre_launch_script \<Rightarrow>
     (case json_dumps rt (ascii '', '') (ascii '': '') docker_compose_content of
        Inl e \<Rightarrow> Inl e
      | Inr dumped_compose \<Rightarrow>
     (case json_dumps rt (ascii '', '') (ascii '': '') pre_launch_script of
        Inl e \<Rightarrow> Inl e
      | Inr dumped_script \<Rightarrow>
          (let docker_compose_escaped = slice_1_m1 dumped_compose;
               pre_launch_escaped = slice_1_m1 dumped_script;
               result = str_replace template (ascii ''DOCKER_COMPOSE_CONTENT'')
                          docker_compose_escaped;
               result = str_replace result (ascii ''PRE_LAUNCH_SCRIPT'') pre_launch_escaped
           in Inr result)))))"

definition get_compose_hash :: "runtime \<Rightarrow> (pykey \<times> pyval) list \<Rightarrow> exn + ustr" where
  "get_compose_hash rt app_compose_data =
     (case to_dstack_format_json rt app_compose_data of
        Inl e \<Rightarrow> Inl e
      | Inr manifest_str \<Rightarrow>
          (case utf8_encode manifest_str of
             Inl e \<Rightarrow> Inl e
           | Inr b \<Rightarrow> Inr (sha256_hexdigest rt b)))"

subsection \<open>\<open>get_default_pre_launch_script\<close> and \<open>docker_compose_to_app_compose\<close>\<close>

definition get_default_pre_launch_script :: ustr where
  \<open>get_default_pre_launch_script = ascii (nl_join
    ['''',
     ''#!/bin/bash'',
     ''echo "----------------------------------------------"'',
     ''echo "Running Phala Cloud Pre-Launch Script v0.0.7"'',
     ''echo "----------------------------------------------"'',
     ''set -e'',
     '''',
     ''# Function: notify host'',
     '''',
     ''notify_host() {'',
     ''    if command -v dstack-util >/dev/null 2>&1; then'',
     ''        dstack-util notify-host -e "$1" -d "$2"'',
     ''    else'',
     ''        tdxctl notify-host -e "$1" -d "$2"'',
     ''    fi'',
     ''}'',
     '''',
     ''notify_host_hoot_info() {'',
     ''    notify_host "boot.progress" "$1"'',
     ''}'',
     '''',
     ''notify_host_hoot_error() {'',
     ''    notify_host "boot.error" "$1"'',
     ''}'',
     '''',
     ''# Function: Perform Docker cleanup'',
     ''perform_cleanup() {'',
     ''    echo "Pruning unused images"'',
     ''    docker image prune -af'',
     ''    echo "Pruning unused volumes"'',
     ''    docker volume prune -f'',
     ''    notify_host_hoot_info "docker cleanup completed"'',
     ''}'',
     '''',
     ''# Function: Check Docker login status without exposing credentials'',
     ''check_docker_login() {'',
     ''    # Try to verify login status without exposing credentials'',
     ''    if docker info 2>/dev/null | grep -q "Username"; then'',
     ''        return 0'',
     ''    else'',
     ''        return 1'',
     ''    fi'',
     ''}'',
     '''',
     ''# Main logic starts here'',
     ''echo "Starting login process..."'',
     '''',
     ''# Check if Docker credentials exist'',
     ''if [[ -n "$DSTACK_DOCKER_USERNAME" && -n "$DSTACK_DOCKER_PASSWORD" ]]; then'',
     ''    echo "Docker credentials found"'',
     ''    '',
     ''    # Check if already logged in'',
     ''    if check_docker_login; then'',
     ''        echo "Already logged in to Docker registry"'',
     ''    else'',
     ''        echo "Logging in to Docker registry..."'',
     ''        # Login without exposing password in process list'',
     ''        if [[ -n "$DSTACK_DOCKER_REGISTRY" ]]; then'',
     ''            echo "$DSTACK_DOCKER_PASSWORD" | docker login -u "$DSTACK_DOCKER_USERNAME" --password-stdin "$DSTACK_DOCKER_REGISTRY"'',
     ''        else'',
     ''            echo "$DSTACK_DOCKER_PASSWORD" | docker login -u "$DSTACK_DOCKER_USERNAME" --password-stdin'',
     ''        fi'',
     ''        '',
     ''        if [ $? -eq 0 ]; then'',
     ''            echo "Docker login successful"'',
     ''        else'',
     ''            echo "Docker login failed"'',
     ''            notify_host_hoot_error "docker login failed"'',
     ''            exit 1'',
     ''        fi'',
     ''    fi'',
     ''# Check if AWS ECR credentials exist'',
     ''elif [[ -n "$DSTACK_AWS_ACCESS_KEY_ID" && -n "$DSTACK_AWS_SECRET_ACCESS_KEY" && -n "$DSTACK_AWS_REGION" && -n "$DSTACK_AWS_ECR_REGISTRY" ]]; then'',
     ''    echo "AWS ECR credentials found"'',
     ''    '',
     ''    # Check if AWS CLI is installed'',
     ''    if ! command -v aws &> /dev/null; then'',
     ''        notify_host_hoot_info "awscli not installed, installing..."'',
     ''        echo "AWS CLI not installed, installing..."'',
     ''        curl "https://awscli.amazonaws.com/awscli-exe-linux-x86_64-2.24.14.zip" -o "awscliv2.zip"'',
     ''        echo "6ff031a26df7daebbfa3ccddc9af1450 awscliv2.zip" | md5sum -c'',
     ''        if [ $? -ne 0 ]; then'',
     ''            echo "MD5 checksum failed"'',
     ''            notify_host_hoot_error "awscli install failed"'',
     ''            exit 1'',
     ''        fi'',
     ''        unzip awscliv2.zip &> /dev/null'',
     ''        ./aws/install'',
     ''        '',
     ''        # Clean up installation files'',
     ''        rm -rf awscliv2.zip aws'',
     ''    else'',
     ''        echo "AWS CLI is already installed: $(which aws)"'',
     ''    fi'',
     '''',
     ''    # Set AWS credentials as environment variables'',
     ''    export AWS_ACCESS_KEY_ID="$DSTACK_AWS_ACCESS_KEY_ID"'',
     ''    export AWS_SECRET_ACCESS_KEY="$DSTACK_AWS_SECRET_ACCESS_KEY"'',
     ''    export AWS_DEFAULT_REGION="$DSTACK_AWS_REGION"'',
     ''    '',
     ''    # Set session token if provided (for temporary credentials)'',
     ''    if [[ -n "$DSTACK_AWS_SESSION_TOKEN" ]]; then'',
     ''        echo "AWS session token found, using temporary credentials"'',
     ''        export AWS_SESSION_TOKEN="$DSTACK_AWS_SESSION_TOKEN"'',
     ''    fi'',
     ''    '',
     ''    # Test AWS credentials before attempting ECR login'',
     ''    echo "Testing AWS credentials..."'',
     ''    if ! aws sts get-caller-identity &> /dev/null; then'',
     ''        echo "AWS credentials test failed"'',
     ''        notify_host_hoot_error "Invalid AWS credentials"'',
     ''        exit 1'',
     ''    fi'',
     '''',
     ''    echo "Logging in to AWS ECR..."'',
     ''    aws ecr get-login-password --region $DSTACK_AWS_REGION | docker login --username AWS --password-stdin "$DSTACK_AWS_ECR_REGISTRY"'',
     ''    if [ $? -eq 0 ]; then'',
     ''        echo "AWS ECR login successful"'',
     ''        notify_host_hoot_info "AWS ECR login successful"'',
     ''    else'',
     ''        echo "AWS ECR login failed"'',
     ''        notify_host_hoot_error "AWS ECR login failed"'',
     ''        exit 1'',
     ''    fi'',
     ''fi'',
     '''',
     ''perform_cleanup'',
     '''',
     ''#'',
     ''# Set root password if DSTACK_ROOT_PASSWORD is set.'',
     ''#'',
     ''if [[ -n "$DSTACK_ROOT_PASSWORD" ]]; then'',
     ''    echo "root:$DSTACK_ROOT_PASSWORD" | chpasswd'',
     ''    unset $DSTACK_ROOT_PASSWORD'',
     ''    echo "Root password set"'',
     ''fi'',
     ''if [[ -n "$DSTACK_ROOT_PUBLIC_KEY" ]]; then'',
     ''    mkdir -p /root/.ssh'',
     ''    echo "$DSTACK_ROOT_PUBLIC_KEY" > /root/.ssh/authorized_keys'',
     ''    unset $DSTACK_ROOT_PUBLIC_KEY'',
     ''    echo "Root public key set"'',
     ''fi'',
     '''',
     '''',
     ''if [[ -e /var/run/dstack.sock ]]; then'',
     ''    export DSTACK_APP_ID=$(curl -s --unix-socket /var/run/dstack.sock http://dstack/Info | jq -j .app_id)'',
     ''else'',
     ''    export DSTACK_APP_ID=$(curl -s --unix-socket /var/run/tappd.sock http://dstack/prpc/Tappd.Info | jq -j .app_id)'',
     ''fi'',
     ''# Check if app-compose.json has default_gateway_domain field and DSTACK_GATEWAY_DOMAIN is not set'',
     ''# If true, set DSTACK_GATEWAY_DOMAIN from app-compose.json'',
     ''if [[ $(jq 'has("default_gateway_domain")' app-compose.json) == "true" && -z "$DSTACK_GATEWAY_DOMAIN" ]]; then'',
     ''    export DSTACK_GATEWAY_DOMAIN=$(jq -j '.default_gateway_domain' app-compose.json)'',
     ''fi'',
     ''if [[ -n "$DSTACK_GATEWAY_DOMAIN" ]]; then'',
     ''    export DSTACK_APP_DOMAIN=$DSTACK_APP_ID"."$DSTACK_GATEWAY_DOMAIN'',
     ''fi'',
     '''',
     ''echo "----------------------------------------------"'',
     ''echo "Script execution completed"'',
     ''echo "----------------------------------------------"'',
     ''''])\<close>

definition default_salt :: ustr where
  "default_salt = ascii ''05fcefaecd984204bb6ccf16938eaad5''"

definition docker_compose_to_app_compose ::
  "runtime \<Rightarrow> ustr \<Rightarrow> exn + (pykey \<times> pyval) list" where
  "docker_compose_to_app_compose rt docker_compose_path =
     (case read_text rt docker_compose_path of
        Inl e \<Rightarrow> Inl e
      | Inr docker_compose_content \<Rightarrow>
          (let deployment_name = ascii ''simple-det-app-verification''
           in Inr
             [(KStr (ascii ''allowed_envs''), PList []),
              (KStr (ascii ''default_gateway_domain''), PNone),
              (KStr (ascii ''docker_compose_file''), PStr docker_compose_content),
              (KStr (ascii ''features''), PList [PStr (ascii ''kms''), PStr (ascii ''tproxy-net'')]),
              (KStr (ascii ''gateway_enabled''), PBool True),
              (KStr (ascii ''kms_enabled''), PBool True),
              (KStr (ascii ''local_key_provider_enabled''), PBool False),
              (KStr (ascii ''manifest_version''), PInt 2),
              (KStr (ascii ''name''), PStr deployment_name),
              (KStr (ascii ''no_instance_id''), PBool False),
              (KStr (ascii ''pre_launch_script''), PStr get_default_pre_launch_script),
              (KStr (ascii ''public_logs''), PBool True),
              (KStr (ascii ''public_sysinfo''), PBool True),
              (KStr (ascii ''runner''), PStr (ascii ''docker-compose'')),
              (KStr (ascii ''salt''), PStr default_salt),
              (KStr (ascii ''tproxy_enabled''), PBool True)]))"

section \<open>verify-deployed-hash.py\<close>

text \<open>
  What \<open>verify_deployed_hash\<close> leaves behind when it returns: the value returned, the
  lines printed, and the text files written (name and content). Text files are written
  in UTF-8, so writing a text that cannot be encoded raises \<open>UnicodeEncodeError\<close>.
\<close>

record outcome =
  returned :: bool
  stdout :: "ustr list"
  files :: "(ustr \<times> ustr) list"

definition write_text :: "ustr \<Rightarrow> ustr \<Rightarrow> exn + (ustr \<times> ustr)" where
  "write_text name content =
     (case utf8_encode content of Inl e \<Rightarrow> Inl e | Inr _ \<Rightarrow> Inr (name, content))"

text \<open>
  A replacement field \<open>{v}\<close> of an f-string is \<open>format(v, '')\<close>, which is \<open>str(v)\<close>:
  a string stands for itself, \<open>None\<close> is the text \<open>None\<close>. The value formatted comes from
  \<open>json.load\<close>, which reads no integer beyond the digit limit, so that formatting an
  integer does not fail.
\<close>

definition format_value :: "runtime \<Rightarrow> pyval \<Rightarrow> ustr" where
  "format_value rt v =
     (case v of
        PNone \<Rightarrow> ascii ''None''
      | PBool b \<Rightarrow> (if b then ascii ''True'' else ascii ''False'')
      | PInt i \<Rightarrow> int_repr i
      | PStr s \<Rightarrow> s
      | _ \<Rightarrow> py_repr rt v)"

text \<open>
  The f-string that \<open>verify_deployed_hash\<close> assigns to \<open>our_formatted_json\<close>: four
  pieces of literal text around the three replacement fields.
\<close>

definition text_before_compose :: ustr where
  \<open>text_before_compose = ascii (nl_join
     [''{'',
      ''    "allowed_envs":[],'',
      ''    "default_gateway_domain":null,'',
      ''    "docker_compose_file":"''])\<close>

definition text_before_script :: ustr where
  \<open>text_before_script = ascii (nl_join
     [''",'',
      ''    "features":['',
      ''        "kms",'',
      ''        "tproxy-net"'',
      ''    ],'',
      ''    "gateway_enabled":true,'',
      ''    "kms_enabled":true,'',
      ''    "local_key_provider_enabled":false,'',
      ''    "manifest_version":2,'',
      ''    "name":"simple-det-app-verification",'',
      ''    "no_instance_id":false,'',
      ''    "pre_launch_script":"''])\<close>

definition text_before_salt :: ustr where
  \<open>text_before_salt = ascii (nl_join
     [''",'',
      ''    "public_logs":true,'',
      ''    "public_sysinfo":true,'',
      ''    "runner":"docker-compose",'',
      ''    "salt":"''])\<close>

definition text_after_salt :: ustr where
  \<open>text_after_salt = ascii (nl_join
     [''",'',
      ''    "tproxy_enabled":true'',
      ''}''])\<close>

definition our_formatted_json :: "ustr \<Rightarrow> ustr \<Rightarrow> ustr \<Rightarrow> ustr" where
  "our_formatted_json docker_compose_escaped pre_launch_escaped deployed_salt =
     text_before_compose @ docker_compose_escaped @
     text_before_script @ pre_launch_escaped @
     text_before_salt @ deployed_salt @
     text_after_salt"

definition verify_deployed_hash :: "runtime \<Rightarrow> ustr \<Rightarrow> ustr \<Rightarrow> exn + outcome" where
  "verify_deployed_hash rt docker_compose_path deployed_app_compose_path =
     (case read_text rt deployed_app_compose_path of
        Inl e \<Rightarrow> Inl e
      | Inr deployed_text \<Rightarrow>
     (case json_loads rt deployed_text of
        Inl e \<Rightarrow> Inl e
      | Inr deployed_app_compose \<Rightarrow>
     (case (case deployed_app_compose of
              PDict d \<Rightarrow> Inr (dict_get d (KStr (ascii ''salt'')))
            | _ \<Rightarrow> Inl AttributeError) of
        Inl e \<Rightarrow> Inl e
      | Inr deployed_salt \<Rightarrow>
     (case read_bytes rt deployed_app_compose_path of
        Inl e \<Rightarrow> Inl e
      | Inr deployed_bytes \<Rightarrow>
     (let deployed_hash = sha256_hexdigest rt deployed_bytes;
          out1 = [ascii ''Deployed salt: '' @ format_value rt deployed_salt,
                  ascii ''Deployed hash: '' @ deployed_hash]
      in
     (case docker_compose_to_app_compose rt docker_compose_path of
        Inl e \<Rightarrow> Inl e
      | Inr app_compose \<Rightarrow>
     (let our_app_compose = dict_setitem app_compose (KStr (ascii ''salt'')) deployed_salt
      in
     (case dict_getitem our_app_compose (KStr (ascii ''docker_compose_file'')) of
        Inl e \<Rightarrow> Inl e
      | Inr docker_compose_content \<Rightarrow>
     (case dict_getitem our_app_compose (KStr (ascii ''pre_launch_script'')) of
        Inl e \<Rightarrow> Inl e
      | Inr pre_launch_script \<Rightarrow>
     (case json_dumps rt (ascii '', '') (ascii '': '') docker_compose_content of
        Inl e \<Rightarrow> Inl e
      | Inr dumped_compose \<Rightarrow>
     (case json_dumps rt (ascii '', '') (ascii '': '') pre_launch_script of
        Inl e \<Rightarrow> Inl e
      | Inr dumped_script \<Rightarrow>
     (let docker_compose_escaped = slice_1_m1 dumped_compose;
          pre_launch_escaped = slice_1_m1 dumped_script;
          formatted = our_formatted_json docker_compose_escaped pre_launch_escaped
                        (format_value rt deployed_salt)
      in
     (case write_text (ascii ''our-app-compose-with-deployed-salt.json'') formatted of
        Inl e \<Rightarrow> Inl e
      | Inr written \<Rightarrow>
     (case utf8_encode formatted of
        Inl e \<Rightarrow> Inl e
      | Inr our_bytes \<Rightarrow>
     (let our_hash = sha256_hexdigest rt our_bytes;
          out2 = out1 @ [ascii ''Our hash (with deployed salt): '' @ our_hash]
      in
        if our_hash = deployed_hash then
          Inr \<lparr>returned = True,
               stdout = out2 @
                 [0x2705 # ascii '' HASH MATCH - Our compose generates same hash as deployed!''],
               files = [written]\<rparr>
        else
          Inr \<lparr>returned = False,
               stdout = out2 @
                 [0x274C # ascii '' HASH MISMATCH - Need to investigate differences'',
                  0x0A # ascii ''Saved files for inspection:'',
                  ascii ''- our-app-compose-with-deployed-salt.json'',
                  ascii ''- '' @ deployed_app_compose_path],
               files = [written]\<rparr>)))))))))))))))"

text \<open>
  The script's entry point: \<open>argv\<close> is \<open>sys.argv\<close>, the result the status passed to
  \<open>sys.exit\<close> with the lines printed. An exception that nothing catches ends the
  interpreter with status 1.
\<close>

definition verify_main :: "runtime \<Rightarrow> ustr list \<Rightarrow> exn + nat \<times> ustr list" where
  "verify_main rt argv =
     (if length argv \<noteq> 3 then
        Inr (1, [ascii (''Usage: python3 verify-deployed-hash.py <docker-compose-deploy.yml> ''
                        @ ''<deployed-app-compose.json>'')])
      else
        (let docker_compose_path = argv ! 1;
             deployed_app_compose_path = argv ! 2
         in case verify_deployed_hash rt docker_compose_path deployed_app_compose_path of
              Inl e \<Rightarrow> Inl e
            | Inr out \<Rightarrow> Inr (if returned out then 0 else 1, stdout out)))"

definition exit_status :: "exn + nat \<times> ustr list \<Rightarrow> nat" where
  "exit_status r = (case r of Inl e \<Rightarrow> 1 | Inr (code, out) \<Rightarrow> code)"

section \<open>Notions used to state the properties\<close>

text \<open>The code points that UTF-8 can encode: everything but the surrogates.\<close>

definition encodable :: "ustr \<Rightarrow> bool" where
  "encodable s = list_all (\<lambda>c. c < 0xD800 \<or> (0xDFFF < c \<and> c < 0x110000)) s"








text \<open>
  Two values are the same up to the insertion order of dictionary keys, at every depth:
  lists agree element by element in the same order, dictionaries have the same keys
  with values that are again the same up to key order.
\<close>

fun same_upto_key_order :: "pyval \<Rightarrow> pyval \<Rightarrow> bool" where
  "same_upto_key_order (PList xs) w =
     (case w of PList ys \<Rightarrow> list_all2 same_upto_key_order xs ys | _ \<Rightarrow> False)"
| "same_upto_key_order (PDict a) w =
     (case w of
        PDict b \<Rightarrow>
          length a = length b \<and>
          list_all (\<lambda>kv. case map_of b (fst kv) of
                           None \<Rightarrow> False
                         | Some v' \<Rightarrow> same_upto_key_order (snd kv) v') a
      | _ \<Rightarrow> False)"
| "same_upto_key_order v w = (v = w)"

text \<open>Python's \<open><=\<close> on two keys, where it is defined.\<close>

fun key_le :: "pykey \<Rightarrow> pykey \<Rightarrow> bool" where
  "key_le (KStr a) (KStr b) = (a \<le> b)"
| "key_le (KInt i) (KInt j) = (i \<le> j)"
| "key_le k k' = False"

fun keys_sorted :: "pyval \<Rightarrow> bool" where
  "keys_sorted (PList xs) = list_all keys_sorted xs"
| "keys_sorted (PDict kvs) =
     (sorted_wrt key_le (map fst kvs) \<and> list_all (\<lambda>kv. keys_sorted (snd kv)) kvs)"
| "keys_sorted v = True"

text \<open>
  Step 2 of the specification's canonical serializer: every NaN and every infinity
  becomes null.
\<close>

definition is_nonfinite :: "64 word \<Rightarrow> bool" where
  "is_nonfinite w = (is_nan w \<or> w = pos_inf \<or> w = neg_inf)"

fun nonfinite_to_null :: "pyval \<Rightarrow> pyval" where
  "nonfinite_to_null (PFloat w) = (if is_nonfinite w then PNone else PFloat w)"
| "nonfinite_to_null (PList xs) = PList (map nonfinite_to_null xs)"
| "nonfinite_to_null (PDict kvs) = PDict (map (\<lambda>kv. (fst kv, nonfinite_to_null (snd kv))) kvs)"
| "nonfinite_to_null v = v"

text \<open>
  Sample data: the manifest document that \<open>docker_compose_to_app_compose\<close> builds, for
  a given compose text, boot script and salt; and a runtime with a compose file and a
  deployed manifest (its text and the document it parses to) on disk, whose digest of a
  byte string is the list of its byte values and whose digit limit is the default; and
  an integer of 4301 digits.
\<close>

definition example_manifest :: "ustr \<Rightarrow> ustr \<Rightarrow> ustr \<Rightarrow> (pykey \<times> pyval) list" where
  "example_manifest compose script salt =
     [(KStr (ascii ''allowed_envs''), PList []),
      (KStr (ascii ''default_gateway_domain''), PNone),
      (KStr (ascii ''docker_compose_file''), PStr compose),
      (KStr (ascii ''features''), PList [PStr (ascii ''kms''), PStr (ascii ''tproxy-net'')]),
      (KStr (ascii ''gateway_enabled''), PBool True),
      (KStr (ascii ''kms_enabled''), PBool True),
      (KStr (ascii ''local_key_provider_enabled''), PBool False),
      (KStr (ascii ''manifest_version''), PInt 2),
      (KStr (ascii ''name''), PStr (ascii ''simple-det-app-verification'')),
      (KStr (ascii ''no_instance_id''), PBool False),
      (KStr (ascii ''pre_launch_script''), PStr script),
      (KStr (ascii ''public_logs''), PBool True),
      (KStr (ascii ''public_sysinfo''), PBool True),
      (KStr (ascii ''runner''), PStr (ascii ''docker-compose'')),
      (KStr (ascii ''salt''), PStr salt),
      (KStr (ascii ''tproxy_enabled''), PBool True)]"

definition example_deployed :: "ustr \<Rightarrow> (pykey \<times> pyval) list \<Rightarrow> runtime" where
  "example_deployed deployed_text deployed =
     \<lparr>float_repr = (\<lambda>w. ascii ''1.5''),
      py_repr = (\<lambda>v. ascii ''[]''),
      sha256_hexdigest = (\<lambda>b. map unat b),
      read_text = (\<lambda>p. if p = ascii ''docker-compose.yml'' then Inr (ascii ''services: {}'')
                        else if p = ascii ''deployed.json'' then Inr deployed_text
                        else Inl FileNotFoundError),
      read_bytes = (\<lambda>p. if p = ascii ''deployed.json'' then Inr (map of_nat deployed_text)
                         else Inl FileNotFoundError),
      json_loads = (\<lambda>t. if t = deployed_text then Inr (PDict deployed)
                         else Inl JSONDecodeError),
      int_max_str_digits = 4300\<rparr>"


definition example_runtime :: runtime where
  "example_runtime = example_deployed (ascii ''{}'') []"

section \<open>Text replacement and the template\<close>

lemma ascii_eq_iff [simp]: "ascii a = ascii b \<longleftrightarrow> a = b"
proof -
  have "inj (of_char :: char \<Rightarrow> nat)" by (rule injI) simp
  then show ?thesis by (simp add: ascii_def inj_map_eq_map)
qed

lemma mem_ascii [simp]: "of_char c \<in> set (ascii s) \<longleftrightarrow> c \<in> set s"
  by (auto simp: ascii_def)

lemma replace_scan_split:
  assumes "c \<notin> set old"
  shows "replace_scan old new (xs @ c # ys) = replace_scan old new xs @ c # replace_scan old new ys"
  using assms
proof (induction old new xs rule: replace_scan.induct)
  case (1 old new)
  then show ?case by (cases old) auto
next
  case (2 old new x xs)
  show ?case
  proof (cases "old \<noteq> [] \<and> prefix old (x # xs)")
    case True
    then have le: "length old \<le> Suc (length xs)" by (auto dest: prefix_length_le)
    have "prefix old ((x # xs) @ c # ys)" using True prefix_prefix by blast
    moreover have "drop (length old - 1) (xs @ c # ys) = drop (length old - 1) xs @ c # ys"
      using le by simp
    ultimately show ?thesis using True 2 by simp
  next
    case False
    have "\<not> prefix old ((x # xs) @ c # ys)" if "old \<noteq> []"
    proof
      assume p: "prefix old ((x # xs) @ c # ys)"
      then obtain zs where zs: "(x # xs) @ c # ys = old @ zs" by (auto simp: prefix_def)
      show False
      proof (cases "length old \<le> length (x # xs)")
        case True
        then have "prefix old (x # xs)" using p
          by (metis prefix_append prefix_length_prefix prefixI le_refl) 
        then show False using False that by simp
      next
        case False
        then have "length (x # xs) < length old" by simp
        then have "old ! length (x # xs) = ((x # xs) @ c # ys) ! length (x # xs)"
          using zs by (metis nth_append)
        then have "old ! length (x # xs) = c" by (metis nth_append_length)
        then have "c \<in> set old" using \<open>length (x # xs) < length old\<close> nth_mem by metis
        then show False using 2 by simp
      qed
    qed
    then show ?thesis using False 2 by auto
  qed
qed

lemma replace_scan_absent:
  "\<not> sublist old s \<Longrightarrow> replace_scan old new s = s"
proof (induction old new s rule: replace_scan.induct)
  case (1 old new)
  then show ?case by simp
next
  case (2 old new c cs)
  have np: "\<not> prefix old (c # cs)" using 2(3) by (metis prefix_imp_sublist)
  have "\<not> sublist old cs" using 2(3) by (metis sublist_Cons_right)
  then show ?case using 2 np by simp
qed

lemma replace_scan_foreign:
  assumes "c \<in> set old" and "c \<notin> set s"
  shows "replace_scan old new s = s"
proof (rule replace_scan_absent)
  show "\<not> sublist old s"
  proof
    assume "sublist old s"
    then have "set old \<subseteq> set s" by (rule set_mono_sublist)
    with assms show False by auto
  qed
qed

lemma replace_scan_self: "old \<noteq> [] \<Longrightarrow> replace_scan old new old = new"
  by (cases old) simp_all


lemma text_before_compose_ends:
  "text_before_compose = butlast text_before_compose @ [0x22]"
proof -
  have "text_before_compose \<noteq> []" by (simp add: text_before_compose_def ascii_def)
  moreover have "last text_before_compose = 0x22"
    by (simp add: text_before_compose_def ascii_def last_map)
  ultimately show ?thesis by (metis append_butlast_last_id)
qed

lemma text_before_script_ends:
  "text_before_script = 0x22 # butlast (tl text_before_script) @ [0x22]"
proof -
  have ne: "tl text_before_script \<noteq> []" by (simp add: text_before_script_def ascii_def)
  have "last (tl text_before_script) = 0x22"
    by (simp add: text_before_script_def ascii_def last_map)
  with ne have "tl text_before_script = butlast (tl text_before_script) @ [0x22]"
    by (metis append_butlast_last_id)
  moreover have "text_before_script = 0x22 # tl text_before_script"
    by (simp add: text_before_script_def ascii_def)
  ultimately show ?thesis by simp
qed

lemma text_before_salt_ends:
  "text_before_salt = 0x22 # butlast (tl text_before_salt) @ [0x22]"
proof -
  have ne: "tl text_before_salt \<noteq> []" by (simp add: text_before_salt_def ascii_def)
  have "last (tl text_before_salt) = 0x22"
    by (simp add: text_before_salt_def ascii_def last_map)
  with ne have "tl text_before_salt = butlast (tl text_before_salt) @ [0x22]"
    by (metis append_butlast_last_id)
  moreover have "text_before_salt = 0x22 # tl text_before_salt"
    by (simp add: text_before_salt_def ascii_def)
  ultimately show ?thesis by simp
qed

lemma text_after_salt_ends: "text_after_salt = 0x22 # tl text_after_salt"
  by (simp add: text_after_salt_def ascii_def)

lemma replace_scan_formatted:
  assumes q: "0x22 \<notin> set old"
    and c: "c \<in> set old"
    and c1: "c \<notin> set text_before_compose"
    and c2: "c \<notin> set text_before_script"
    and c3: "c \<notin> set text_before_salt"
    and c4: "c \<notin> set text_after_salt"
  shows "replace_scan old new (our_formatted_json a b s) =
           our_formatted_json (replace_scan old new a) (replace_scan old new b)
             (replace_scan old new s)"
proof -
  define A1 where "A1 = butlast text_before_compose"
  define A2 where "A2 = butlast (tl text_before_script)"
  define A3 where "A3 = butlast (tl text_before_salt)"
  define A4 where "A4 = tl text_after_salt"
  have e1: "text_before_compose = A1 @ [0x22]"
    unfolding A1_def by (rule text_before_compose_ends)
  have e2: "text_before_script = 0x22 # A2 @ [0x22]"
    unfolding A2_def by (rule text_before_script_ends)
  have e3: "text_before_salt = 0x22 # A3 @ [0x22]"
    unfolding A3_def by (rule text_before_salt_ends)
  have e4: "text_after_salt = 0x22 # A4"
    unfolding A4_def by (rule text_after_salt_ends)
  have n1: "c \<notin> set A1" using c1 unfolding e1 by simp
  have n2: "c \<notin> set A2" using c2 unfolding e2 by simp
  have n3: "c \<notin> set A3" using c3 unfolding e3 by simp
  have n4: "c \<notin> set A4" using c4 unfolding e4 by simp
  have r: "replace_scan old new A1 = A1" "replace_scan old new A2 = A2"
    "replace_scan old new A3 = A3" "replace_scan old new A4 = A4"
    using c n1 n2 n3 n4 by (simp_all add: replace_scan_foreign)
  have "our_formatted_json a b s =
          A1 @ 0x22 # (a @ 0x22 # (A2 @ 0x22 # (b @ 0x22 # (A3 @ 0x22 # (s @ 0x22 # A4)))))"
    by (simp add: our_formatted_json_def e1 e2 e3 e4)
  moreover have "our_formatted_json (replace_scan old new a) (replace_scan old new b)
             (replace_scan old new s) =
          A1 @ 0x22 # (replace_scan old new a @ 0x22 # (A2 @ 0x22 #
            (replace_scan old new b @ 0x22 # (A3 @ 0x22 # (replace_scan old new s @ 0x22 # A4)))))"
    by (simp add: our_formatted_json_def e1 e2 e3 e4)
  ultimately show ?thesis
    by (simp only: replace_scan_split[OF q] r)
qed

lemma template_eq:
  "template = our_formatted_json (ascii ''DOCKER_COMPOSE_CONTENT'') (ascii ''PRE_LAUNCH_SCRIPT'')
                default_salt"
  by (simp add: template_def our_formatted_json_def default_salt_def ascii_def
      text_before_compose_def text_before_script_def text_before_salt_def text_after_salt_def)

lemma letter_D_not_in_template: 
  "of_char (CHR ''D'') \<notin> set text_before_compose"
  "of_char (CHR ''D'') \<notin> set text_before_script"
  "of_char (CHR ''D'') \<notin> set text_before_salt"
  "of_char (CHR ''D'') \<notin> set text_after_salt"
  "of_char (CHR ''D'') \<notin> set (ascii ''PRE_LAUNCH_SCRIPT'')"
  "of_char (CHR ''D'') \<notin> set default_salt"
  by (simp_all only: text_before_compose_def text_before_script_def text_before_salt_def
      text_after_salt_def default_salt_def mem_ascii) simp_all

lemma letter_P_not_in_template: 
  "of_char (CHR ''P'') \<notin> set text_before_compose"
  "of_char (CHR ''P'') \<notin> set text_before_script"
  "of_char (CHR ''P'') \<notin> set text_before_salt"
  "of_char (CHR ''P'') \<notin> set text_after_salt"
  "of_char (CHR ''P'') \<notin> set default_salt"
  by (simp_all only: text_before_compose_def text_before_script_def text_before_salt_def
      text_after_salt_def default_salt_def mem_ascii) simp_all

lemma quote_not_in_placeholder:
  "0x22 \<notin> set (ascii ''DOCKER_COMPOSE_CONTENT'')"
  "0x22 \<notin> set (ascii ''PRE_LAUNCH_SCRIPT'')"
  by (simp_all add: ascii_def)

lemma template_rendering:
  "str_replace (str_replace template (ascii ''DOCKER_COMPOSE_CONTENT'') e1)
     (ascii ''PRE_LAUNCH_SCRIPT'') e2 =
   our_formatted_json (replace_scan (ascii ''PRE_LAUNCH_SCRIPT'') e2 e1) e2 default_salt"
proof -
  have D: "of_char (CHR ''D'') \<in> set (ascii ''DOCKER_COMPOSE_CONTENT'')"
    by (simp only: mem_ascii) simp
  have P: "of_char (CHR ''P'') \<in> set (ascii ''PRE_LAUNCH_SCRIPT'')"
    by (simp only: mem_ascii) simp
  have ne: "ascii ''DOCKER_COMPOSE_CONTENT'' \<noteq> []" "ascii ''PRE_LAUNCH_SCRIPT'' \<noteq> []"
    by (simp_all add: ascii_def)
  have one: "str_replace template (ascii ''DOCKER_COMPOSE_CONTENT'') e1 =
      our_formatted_json e1 (ascii ''PRE_LAUNCH_SCRIPT'') default_salt"
    unfolding str_replace_def template_eq
    using ne replace_scan_formatted[OF quote_not_in_placeholder(1) D letter_D_not_in_template(1-4)]
    by (simp add: replace_scan_self replace_scan_foreign[OF D letter_D_not_in_template(5)]
        replace_scan_foreign[OF D letter_D_not_in_template(6)])
  show ?thesis
    unfolding one unfolding str_replace_def
    using ne replace_scan_formatted[OF quote_not_in_placeholder(2) P letter_P_not_in_template(1-4)]
    by (simp add: replace_scan_self replace_scan_foreign[OF P letter_P_not_in_template(5)])
qed

section \<open>Encoding and the steps of the verifier\<close>

lemma mapM_exn_ok:
  "(\<And>x. x \<in> set xs \<Longrightarrow> \<exists>y. f x = Inr y) \<Longrightarrow> \<exists>ys. mapM_exn f xs = Inr ys"
proof (induction xs)
  case Nil
  then show ?case by simp
next
  case (Cons x xs)
  then obtain y where "f x = Inr y" by auto
  moreover obtain ys where "mapM_exn f xs = Inr ys" using Cons by auto
  ultimately show ?case by simp
qed

lemma utf8_encode_encodable: "encodable s \<Longrightarrow> \<exists>b. utf8_encode s = Inr b"
proof -
  assume "encodable s"
  then have "\<And>c. c \<in> set s \<Longrightarrow> \<exists>y. utf8_char c = Inr y"
    by (auto simp: encodable_def list_all_iff utf8_char_def)
  then obtain bs where "mapM_exn utf8_char s = Inr bs" using mapM_exn_ok by blast
  then show ?thesis by (simp add: utf8_encode_def)
qed

lemma encodable_append [simp]: "encodable (a @ b) \<longleftrightarrow> encodable a \<and> encodable b"
  by (simp add: encodable_def)

lemma encodable_ascii [simp]: "encodable (ascii s)"
proof -
  have "(of_char c :: nat) < 0xD800" for c :: char
  proof -
    have "(of_char c :: nat) = of_char c mod 256" by simp
    also have "\<dots> < 256" by (rule mod_less_divisor) simp
    finally show ?thesis by linarith
  qed
  then show ?thesis by (simp add: encodable_def ascii_def list_all_iff)
qed

lemma encodable_escape_char: "encodable [c] \<Longrightarrow> encodable (escape_char c)"
  by (auto simp: escape_char_def encodable_def hex_digit_def ascii_def)

lemma encodable_json_escape: "encodable s \<Longrightarrow> encodable (json_escape s)"
proof (induction s)
  case Nil
  then show ?case by (simp add: json_escape_def encodable_def)
next
  case (Cons c s)
  then have "encodable [c]" "encodable s" by (simp_all add: encodable_def)
  then show ?case using Cons encodable_escape_char by (simp add: json_escape_def)
qed

lemma encodable_formatted:
  "encodable (our_formatted_json a b s) \<longleftrightarrow> encodable a \<and> encodable b \<and> encodable s"
  by (simp add: our_formatted_json_def text_before_compose_def text_before_script_def
      text_before_salt_def text_after_salt_def)

lemma encodable_default_script: "encodable get_default_pre_launch_script"
  unfolding get_default_pre_launch_script_def by (rule encodable_ascii)

lemma slice_encode_basestring [simp]: "slice_1_m1 (encode_basestring s) = json_escape s"
  by (simp add: slice_1_m1_def encode_basestring_def butlast_append)

lemma map_of_dict_setitem_other:
  "k \<noteq> k' \<Longrightarrow> map_of (dict_setitem d k' v) k = map_of d k"
  by (induction d) auto

lemma verify_deployed_hash_loaded:
  assumes dt: "read_text rt dp = Inr dt"
    and doc: "json_loads rt dt = Inr (PDict d)"
    and db: "read_bytes rt dp = Inr db"
    and c: "read_text rt cp = Inr c"
    and b: "utf8_encode (our_formatted_json (json_escape c)
              (json_escape get_default_pre_launch_script)
              (format_value rt (dict_get d (KStr (ascii ''salt''))))) = Inr b"
  shows "\<exists>out. verify_deployed_hash rt cp dp = Inr out \<and>
           returned out = (sha256_hexdigest rt b = sha256_hexdigest rt db) \<and>
           files out = [(ascii ''our-app-compose-with-deployed-salt.json'',
              our_formatted_json (json_escape c)
              (json_escape get_default_pre_launch_script)
              (format_value rt (dict_get d (KStr (ascii ''salt'')))))] \<and>
           hd (stdout out) =
             ascii ''Deployed salt: '' @ format_value rt (dict_get d (KStr (ascii ''salt'')))"
  using assms
  by (simp add: verify_deployed_hash_def docker_compose_to_app_compose_def Let_def
      dict_getitem_def map_of_dict_setitem_other write_text_def)

lemma stored_salt_text:
  "map_of d (KStr (ascii ''salt'')) = Some (PStr s) \<Longrightarrow>
   format_value rt (dict_get d (KStr (ascii ''salt''))) = s"
  by (simp add: dict_get_def format_value_def)


lemma salt_in_formatted: "sublist s (our_formatted_json a b s)"
  unfolding our_formatted_json_def
  by (metis append.assoc sublist_appendI)

section \<open>The verifier\<close>

text \<open>
  C3. The verifier rebuilds the manifest with the salt of the deployed document, not
  with the default one: when the deployed document is a mapping whose \<open>salt\<close> is a
  string, the text that \<open>verify_deployed_hash\<close> writes out and hashes is the template
  filled with the escaped compose text, the escaped default boot script and that salt,
  so it contains the deployed salt.
\<close>

theorem verify_renders_deployed_salt:
  assumes "read_text rt deployed_path = Inr deployed_text"
    and "json_loads rt deployed_text = Inr (PDict deployed)"
    and "map_of deployed (KStr (ascii ''salt'')) = Some (PStr salt)"
    and "read_bytes rt deployed_path = Inr deployed_bytes"
    and "read_text rt compose_path = Inr compose"
    and "encodable compose"
    and "encodable salt"
  shows "\<exists>b out.
           utf8_encode (our_formatted_json (json_escape compose)
             (json_escape get_default_pre_launch_script) salt) = Inr b \<and>
           verify_deployed_hash rt compose_path deployed_path = Inr out \<and>
           files out = [(ascii ''our-app-compose-with-deployed-salt.json'',
             our_formatted_json (json_escape compose)
               (json_escape get_default_pre_launch_script) salt)] \<and>
           returned out = (sha256_hexdigest rt b = sha256_hexdigest rt deployed_bytes) \<and>
           sublist salt (our_formatted_json (json_escape compose)
             (json_escape get_default_pre_launch_script) salt)"
proof -
  have s: "format_value rt (dict_get deployed (KStr (ascii ''salt''))) = salt"
    using assms(3) by (rule stored_salt_text)
  have "encodable (our_formatted_json (json_escape compose)
          (json_escape get_default_pre_launch_script) salt)"
    using assms(6,7) encodable_default_script
    by (simp add: encodable_formatted encodable_json_escape)
  then obtain b where b: "utf8_encode (our_formatted_json (json_escape compose)
          (json_escape get_default_pre_launch_script) salt) = Inr b"
    using utf8_encode_encodable by blast
  from verify_deployed_hash_loaded[OF assms(1,2,4,5), unfolded s, OF b] b salt_in_formatted
  show ?thesis by blast
qed

theorem verify_renders_deployed_salt_witness:
  \<open>\<exists>b out.
     utf8_encode (our_formatted_json (json_escape (ascii ''services: {}''))
       (json_escape get_default_pre_launch_script) (ascii ''0123abcd'')) = Inr b \<and>
     verify_deployed_hash
       (example_deployed (ascii ''{"salt": "0123abcd"}'')
          [(KStr (ascii ''salt''), PStr (ascii ''0123abcd''))])
       (ascii ''docker-compose.yml'') (ascii ''deployed.json'') = Inr out \<and>
     files out = [(ascii ''our-app-compose-with-deployed-salt.json'',
       our_formatted_json (json_escape (ascii ''services: {}''))
         (json_escape get_default_pre_launch_script) (ascii ''0123abcd''))] \<and>
     returned out =
       (sha256_hexdigest
          (example_deployed (ascii ''{"salt": "0123abcd"}'')
             [(KStr (ascii ''salt''), PStr (ascii ''0123abcd''))]) b =
        sha256_hexdigest
          (example_deployed (ascii ''{"salt": "0123abcd"}'')
             [(KStr (ascii ''salt''), PStr (ascii ''0123abcd''))])
          (map of_nat (ascii ''{"salt": "0123abcd"}''))) \<and>
     sublist (ascii ''0123abcd'') (our_formatted_json (json_escape (ascii ''services: {}''))
       (json_escape get_default_pre_launch_script) (ascii ''0123abcd'')) \<and>
     ascii ''0123abcd'' \<noteq> default_salt\<close>
proof -
  have ne: "ascii ''0123abcd'' \<noteq> default_salt"
    by (simp add: default_salt_def)
  show ?thesis
    using ne verify_renders_deployed_salt[of
        \<open>example_deployed (ascii ''{"salt": "0123abcd"}'')
          [(KStr (ascii ''salt''), PStr (ascii ''0123abcd''))]\<close>
        "ascii ''deployed.json''" \<open>ascii ''{"salt": "0123abcd"}''\<close>
        "[(KStr (ascii ''salt''), PStr (ascii ''0123abcd''))]" "ascii ''0123abcd''"
        \<open>map of_nat (ascii ''{"salt": "0123abcd"}'')\<close>
        "ascii ''docker-compose.yml''" "ascii ''services: {}''"]
    by (simp add: example_deployed_def)
qed

lemma verify_main_exit_zero:
  "exit_status (verify_main rt argv) = 0 \<longleftrightarrow>
     length argv = 3 \<and>
     (\<exists>out. verify_deployed_hash rt (argv ! 1) (argv ! 2) = Inr out \<and> returned out)"
  by (auto simp: exit_status_def verify_main_def Let_def split: sum.splits)

lemma utf8_encode_formatted:
  assumes "encodable a" and "encodable s"
  shows "\<exists>b. utf8_encode (our_formatted_json (json_escape a)
           (json_escape get_default_pre_launch_script) s) = Inr b"
proof (rule utf8_encode_encodable)
  show "encodable (our_formatted_json (json_escape a)
          (json_escape get_default_pre_launch_script) s)"
    using assms encodable_default_script
    by (simp add: encodable_formatted encodable_json_escape)
qed

text \<open>
  C4. When both files load and the deployed document is a mapping, \<open>verify_deployed_hash\<close>
  returns \<open>True\<close> (Matched) exactly when the digest of the locally rendered manifest is
  equal, as a string, to the digest of the deployed file's bytes, and \<open>False\<close>
  (Mismatched) otherwise; the command line then exits with status 0 on a match and 1 on
  a mismatch. For every argument list the exit status is 0 exactly when two paths
  were given and the verifier returned \<open>True\<close> on them.
\<close>

theorem verify_verdict_is_digest_equality:
  assumes "read_text rt deployed_path = Inr deployed_text"
    and "json_loads rt deployed_text = Inr (PDict deployed)"
    and "read_bytes rt deployed_path = Inr deployed_bytes"
    and "read_text rt compose_path = Inr compose"
    and "encodable compose"
    and "encodable (format_value rt (dict_get deployed (KStr (ascii ''salt''))))"
  shows "\<exists>our_bytes out.
           utf8_encode (our_formatted_json (json_escape compose)
             (json_escape get_default_pre_launch_script)
             (format_value rt (dict_get deployed (KStr (ascii ''salt''))))) = Inr our_bytes \<and>
           verify_deployed_hash rt compose_path deployed_path = Inr out \<and>
           returned out =
             (sha256_hexdigest rt our_bytes = sha256_hexdigest rt deployed_bytes) \<and>
           exit_status (verify_main rt [program, compose_path, deployed_path]) =
             (if sha256_hexdigest rt our_bytes = sha256_hexdigest rt deployed_bytes
              then 0 else 1) \<and>
           (exit_status (verify_main rt argv) = 0 \<longleftrightarrow>
              length argv = 3 \<and>
              (\<exists>r. verify_deployed_hash rt (argv ! 1) (argv ! 2) = Inr r \<and> returned r))"
proof -
  obtain our_bytes where b: "utf8_encode (our_formatted_json (json_escape compose)
             (json_escape get_default_pre_launch_script)
             (format_value rt (dict_get deployed (KStr (ascii ''salt''))))) = Inr our_bytes"
    using utf8_encode_formatted[OF assms(5,6)] by blast
  from verify_deployed_hash_loaded[OF assms(1-4) b]
  obtain out where out: "verify_deployed_hash rt compose_path deployed_path = Inr out"
    "returned out = (sha256_hexdigest rt our_bytes = sha256_hexdigest rt deployed_bytes)"
    by blast
  then have "exit_status (verify_main rt [program, compose_path, deployed_path]) =
      (if sha256_hexdigest rt our_bytes = sha256_hexdigest rt deployed_bytes then 0 else 1)"
    by (simp add: exit_status_def verify_main_def)
  with b out verify_main_exit_zero[of rt argv] show ?thesis
    by - (rule exI[of _ our_bytes], rule exI[of _ out], simp)
qed

theorem verify_verdict_is_digest_equality_witness:
  \<open>\<exists>our_bytes out.
     utf8_encode (our_formatted_json (json_escape (ascii ''services: {}''))
       (json_escape get_default_pre_launch_script)
       (format_value (example_deployed (ascii ''{"salt": "0123abcd"}'')
            [(KStr (ascii ''salt''), PStr (ascii ''0123abcd''))])
          (dict_get [(KStr (ascii ''salt''), PStr (ascii ''0123abcd''))]
             (KStr (ascii ''salt''))))) = Inr our_bytes \<and>
     verify_deployed_hash
       (example_deployed (ascii ''{"salt": "0123abcd"}'')
          [(KStr (ascii ''salt''), PStr (ascii ''0123abcd''))])
       (ascii ''docker-compose.yml'') (ascii ''deployed.json'') = Inr out \<and>
     returned out =
       (sha256_hexdigest (example_deployed (ascii ''{"salt": "0123abcd"}'')
            [(KStr (ascii ''salt''), PStr (ascii ''0123abcd''))]) our_bytes =
        sha256_hexdigest (example_deployed (ascii ''{"salt": "0123abcd"}'')
            [(KStr (ascii ''salt''), PStr (ascii ''0123abcd''))])
          (map of_nat (ascii ''{"salt": "0123abcd"}''))) \<and>
     exit_status (verify_main
         (example_deployed (ascii ''{"salt": "0123abcd"}'')
            [(KStr (ascii ''salt''), PStr (ascii ''0123abcd''))])
         [ascii ''verify-deployed-hash.py'', ascii ''docker-compose.yml'',
          ascii ''deployed.json'']) =
       (if sha256_hexdigest (example_deployed (ascii ''{"salt": "0123abcd"}'')
              [(KStr (ascii ''salt''), PStr (ascii ''0123abcd''))]) our_bytes =
           sha256_hexdigest (example_deployed (ascii ''{"salt": "0123abcd"}'')
              [(KStr (ascii ''salt''), PStr (ascii ''0123abcd''))])
             (map of_nat (ascii ''{"salt": "0123abcd"}''))
        then 0 else 1) \<and>
     (exit_status (verify_main
         (example_deployed (ascii ''{"salt": "0123abcd"}'')
            [(KStr (ascii ''salt''), PStr (ascii ''0123abcd''))])
         [ascii ''verify-deployed-hash.py'', ascii ''docker-compose.yml'',
          ascii ''deployed.json'']) = 0 \<longleftrightarrow>
        length [ascii ''verify-deployed-hash.py'', ascii ''docker-compose.yml'',
          ascii ''deployed.json''] = 3 \<and>
        (\<exists>r. verify_deployed_hash
           (example_deployed (ascii ''{"salt": "0123abcd"}'')
              [(KStr (ascii ''salt''), PStr (ascii ''0123abcd''))])
           ([ascii ''verify-deployed-hash.py'', ascii ''docker-compose.yml'',
             ascii ''deployed.json''] ! 1)
           ([ascii ''verify-deployed-hash.py'', ascii ''docker-compose.yml'',
             ascii ''deployed.json''] ! 2) = Inr r \<and> returned r))\<close>
proof -
  define rt where \<open>rt = example_deployed (ascii ''{"salt": "0123abcd"}'')
            [(KStr (ascii ''salt''), PStr (ascii ''0123abcd''))]\<close>
  have h1: \<open>read_text rt (ascii ''deployed.json'') = Inr (ascii ''{"salt": "0123abcd"}'')\<close>
    by (simp add: rt_def example_deployed_def)
  have h2: \<open>json_loads rt (ascii ''{"salt": "0123abcd"}'') =
      Inr (PDict [(KStr (ascii ''salt''), PStr (ascii ''0123abcd''))])\<close>
    by (simp add: rt_def example_deployed_def)
  have h3: \<open>read_bytes rt (ascii ''deployed.json'') =
      Inr (map of_nat (ascii ''{"salt": "0123abcd"}''))\<close>
    by (simp add: rt_def example_deployed_def)
  have h4: "read_text rt (ascii ''docker-compose.yml'') = Inr (ascii ''services: {}'')"
    by (simp add: rt_def example_deployed_def)
  have h5: "encodable (ascii ''services: {}'')" by (rule encodable_ascii)
  have h6: "encodable (format_value rt
      (dict_get [(KStr (ascii ''salt''), PStr (ascii ''0123abcd''))] (KStr (ascii ''salt''))))"
    by (simp add: dict_get_def format_value_def)
  show ?thesis
    unfolding rt_def[symmetric]
    by (rule verify_verdict_is_digest_equality[OF h1 h2 h3 h4 h5 h6])
qed




text \<open>
  The deployed document has to be a mapping: on any other JSON value \<open>get\<close> does not
  exist and the verifier stops with \<open>AttributeError\<close>.
\<close>

lemma verify_deployed_hash_not_a_mapping:
  assumes "read_text rt deployed_path = Inr deployed_text"
    and "json_loads rt deployed_text = Inr document"
    and "\<forall>d. document \<noteq> PDict d"
  shows "verify_deployed_hash rt compose_path deployed_path = Inl AttributeError"
  using assms by (cases document) (simp_all add: verify_deployed_hash_def)

section \<open>The literal rendering\<close>

lemma to_dstack_format_json_strings:
  assumes "map_of data (KStr (ascii ''docker_compose_file'')) = Some (PStr compose)"
    and "map_of data (KStr (ascii ''pre_launch_script'')) = Some (PStr script)"
  shows "to_dstack_format_json rt data =
           Inr (our_formatted_json
                  (replace_scan (ascii ''PRE_LAUNCH_SCRIPT'') (json_escape script)
                     (json_escape compose))
                  (json_escape script) default_salt)"
  using assms
  by (simp add: to_dstack_format_json_def dict_getitem_def Let_def template_rendering)

lemma to_dstack_format_json_tail:
  assumes "to_dstack_format_json rt data = Inr r"
  shows "suffix (text_before_salt @ default_salt @ text_after_salt) r"
proof -
  from assms obtain c p where "r = our_formatted_json c p default_salt"
    by (auto simp: to_dstack_format_json_def Let_def template_rendering split: sum.splits)
  then show ?thesis
    by (simp add: our_formatted_json_def suffix_def)
qed

lemma example_manifest_fields:
  "map_of (example_manifest c p s) (KStr (ascii ''docker_compose_file'')) = Some (PStr c)"
  "map_of (example_manifest c p s) (KStr (ascii ''pre_launch_script'')) = Some (PStr p)"
  "map_of (example_manifest c p s) (KStr (ascii ''salt'')) = Some (PStr s)"
  by (simp_all add: example_manifest_def)

lemma to_dstack_format_json_same_fields:
  assumes "dict_getitem d1 (KStr (ascii ''docker_compose_file'')) =
           dict_getitem d2 (KStr (ascii ''docker_compose_file''))"
    and "dict_getitem d1 (KStr (ascii ''pre_launch_script'')) =
         dict_getitem d2 (KStr (ascii ''pre_launch_script''))"
  shows "to_dstack_format_json rt d1 = to_dstack_format_json rt d2"
  by (simp only: to_dstack_format_json_def assms)

text \<open>
  C9. The literal rendering depends only on the fields \<open>docker_compose_file\<close> and
  \<open>pre_launch_script\<close> of its input: two mappings that agree on these two fields
  (present with the same value, or absent in both) are rendered to the same result.
\<close>

theorem to_dstack_format_json_reads_two_fields:
  assumes "dict_getitem d1 (KStr (ascii ''docker_compose_file'')) =
           dict_getitem d2 (KStr (ascii ''docker_compose_file''))"
    and "dict_getitem d1 (KStr (ascii ''pre_launch_script'')) =
         dict_getitem d2 (KStr (ascii ''pre_launch_script''))"
  shows "to_dstack_format_json rt d1 = to_dstack_format_json rt d2"
  using assms by (rule to_dstack_format_json_same_fields)

theorem to_dstack_format_json_reads_two_fields_witness:
  "to_dstack_format_json example_runtime
     (example_manifest (ascii ''services: {}'') (ascii ''#!/bin/sh'') default_salt) =
   to_dstack_format_json example_runtime
     [(KStr (ascii ''salt''), PInt 7),
      (KStr (ascii ''pre_launch_script''), PStr (ascii ''#!/bin/sh'')),
      (KStr (ascii ''name''), PStr (ascii ''another-app'')),
      (KStr (ascii ''features''), PList []),
      (KStr (ascii ''manifest_version''), PInt 3),
      (KStr (ascii ''docker_compose_file''), PStr (ascii ''services: {}''))]"
  by (rule to_dstack_format_json_reads_two_fields)
    (simp_all add: dict_getitem_def example_manifest_def)

text \<open>
  C1, as stated, fails: two manifests that differ only in their salt have the same
  literal rendering and the same digest.
\<close>

theorem salt_override_is_not_rendered:
  "example_manifest (ascii ''services: {}'') (ascii ''#!/bin/sh'')
       (ascii ''00000000000000000000000000000000'') \<noteq>
     example_manifest (ascii ''services: {}'') (ascii ''#!/bin/sh'') default_salt \<and>
   to_dstack_format_json example_runtime
     (example_manifest (ascii ''services: {}'') (ascii ''#!/bin/sh'')
        (ascii ''00000000000000000000000000000000'')) =
     to_dstack_format_json example_runtime
       (example_manifest (ascii ''services: {}'') (ascii ''#!/bin/sh'') default_salt) \<and>
   get_compose_hash example_runtime
     (example_manifest (ascii ''services: {}'') (ascii ''#!/bin/sh'')
        (ascii ''00000000000000000000000000000000'')) =
     get_compose_hash example_runtime
       (example_manifest (ascii ''services: {}'') (ascii ''#!/bin/sh'') default_salt)"
  by (simp add: to_dstack_format_json_strings example_manifest_fields get_compose_hash_def)
    (simp add: example_manifest_def default_salt_def)

text \<open>
  C1, amended: the literal rendering does not read the manifest's salt. Replacing the
  salt of a manifest by any value changes neither the rendering nor the digest, and
  every rendering ends with the default salt at the salt position of the template.
\<close>

theorem literal_rendering_ignores_salt:
  "to_dstack_format_json rt (dict_setitem data (KStr (ascii ''salt'')) v) =
     to_dstack_format_json rt data \<and>
   get_compose_hash rt (dict_setitem data (KStr (ascii ''salt'')) v) =
     get_compose_hash rt data \<and>
   (to_dstack_format_json rt data = Inr r \<longrightarrow>
      suffix (text_before_salt @ default_salt @ text_after_salt) r)"
proof -
  have "to_dstack_format_json rt (dict_setitem data (KStr (ascii ''salt'')) v) =
     to_dstack_format_json rt data"
    by (rule to_dstack_format_json_same_fields)
      (simp_all add: dict_getitem_def map_of_dict_setitem_other)
  then show ?thesis
    by (simp add: get_compose_hash_def to_dstack_format_json_tail)
qed

theorem literal_rendering_ignores_salt_witness:
  "to_dstack_format_json example_runtime
     (dict_setitem (example_manifest (ascii ''services: {}'') (ascii ''#!/bin/sh'') default_salt)
        (KStr (ascii ''salt'')) (PStr (ascii ''00000000000000000000000000000000''))) =
     to_dstack_format_json example_runtime
       (example_manifest (ascii ''services: {}'') (ascii ''#!/bin/sh'') default_salt) \<and>
   get_compose_hash example_runtime
     (dict_setitem (example_manifest (ascii ''services: {}'') (ascii ''#!/bin/sh'') default_salt)
        (KStr (ascii ''salt'')) (PStr (ascii ''00000000000000000000000000000000''))) =
     get_compose_hash example_runtime
       (example_manifest (ascii ''services: {}'') (ascii ''#!/bin/sh'') default_salt) \<and>
   to_dstack_format_json example_runtime
       (example_manifest (ascii ''services: {}'') (ascii ''#!/bin/sh'') default_salt) =
     Inr (our_formatted_json
            (replace_scan (ascii ''PRE_LAUNCH_SCRIPT'') (json_escape (ascii ''#!/bin/sh''))
               (json_escape (ascii ''services: {}'')))
            (json_escape (ascii ''#!/bin/sh'')) default_salt) \<and>
   suffix (text_before_salt @ default_salt @ text_after_salt)
     (our_formatted_json
        (replace_scan (ascii ''PRE_LAUNCH_SCRIPT'') (json_escape (ascii ''#!/bin/sh''))
           (json_escape (ascii ''services: {}'')))
        (json_escape (ascii ''#!/bin/sh'')) default_salt)"
  using literal_rendering_ignores_salt[of example_runtime
      "example_manifest (ascii ''services: {}'') (ascii ''#!/bin/sh'') default_salt"
      "PStr (ascii ''00000000000000000000000000000000'')"
      "our_formatted_json
        (replace_scan (ascii ''PRE_LAUNCH_SCRIPT'') (json_escape (ascii ''#!/bin/sh''))
           (json_escape (ascii ''services: {}'')))
        (json_escape (ascii ''#!/bin/sh'')) default_salt"]
  by (simp add: to_dstack_format_json_strings example_manifest_fields)


lemma json_escape_plain:
  "list_all (\<lambda>c. 0x20 \<le> c \<and> c \<noteq> 0x22 \<and> c \<noteq> 0x5C) s \<Longrightarrow> json_escape s = s"
  by (induction s) (auto simp: json_escape_def escape_char_def)

text \<open>
  C2, at a failing input: the compose text \<open># PRE_LAUNCH_SCRIPT\<close> with the boot script
  \<open>#!/bin/sh\<close>. The second \<open>replace\<close> of \<open>to_dstack_format_json\<close> also rewrites the
  placeholder name inside the compose text that the first one embedded, so the
  \<open>docker_compose_file\<close> field holds \<open># #!/bin/sh\<close>, not the escaped compose text.
\<close>

theorem placeholder_text_in_compose_is_overwritten:
  "to_dstack_format_json example_runtime
     (example_manifest (ascii ''# PRE_LAUNCH_SCRIPT'') (ascii ''#!/bin/sh'') default_salt) =
     Inr (our_formatted_json (ascii ''# #!/bin/sh'') (ascii ''#!/bin/sh'') default_salt) \<and>
   our_formatted_json (ascii ''# #!/bin/sh'') (ascii ''#!/bin/sh'') default_salt \<noteq>
     our_formatted_json (json_escape (ascii ''# PRE_LAUNCH_SCRIPT''))
       (json_escape (ascii ''#!/bin/sh'')) default_salt"
proof -
  have e1: "json_escape (ascii ''# PRE_LAUNCH_SCRIPT'') = ascii ''# PRE_LAUNCH_SCRIPT''"
    by (rule json_escape_plain) (simp add: ascii_def)
  have e2: "json_escape (ascii ''#!/bin/sh'') = ascii ''#!/bin/sh''"
    by (rule json_escape_plain) (simp add: ascii_def)
  have r: "replace_scan (ascii ''PRE_LAUNCH_SCRIPT'') (ascii ''#!/bin/sh'')
             (ascii ''# PRE_LAUNCH_SCRIPT'') = ascii ''# #!/bin/sh''"
    by (simp add: ascii_def)
  have "to_dstack_format_json example_runtime
     (example_manifest (ascii ''# PRE_LAUNCH_SCRIPT'') (ascii ''#!/bin/sh'') default_salt) =
     Inr (our_formatted_json (ascii ''# #!/bin/sh'') (ascii ''#!/bin/sh'') default_salt)"
    by (simp add: to_dstack_format_json_strings example_manifest_fields e1 e2 r)
  moreover have "our_formatted_json (ascii ''# #!/bin/sh'') (ascii ''#!/bin/sh'') default_salt \<noteq>
     our_formatted_json (json_escape (ascii ''# PRE_LAUNCH_SCRIPT''))
       (json_escape (ascii ''#!/bin/sh'')) default_salt"
    unfolding e1 e2 by (simp add: our_formatted_json_def)
  ultimately show ?thesis by (rule conjI)
qed

lemma sort_two_fields:
  "sorted_items [(KStr (ascii ''docker_compose_file''), a), (KStr (ascii ''pre_launch_script''), b)]
     = Inr [(KStr (ascii ''docker_compose_file''), a), (KStr (ascii ''pre_launch_script''), b)]"
  by (simp add: sorted_items_def is_KStr_def str_of_key_def ascii_def)

text \<open>
  C8. Both paths escape a string with the same function: what the literal renderer
  keeps of \<open>json.dumps(s, ensure_ascii=False)\<close> after dropping the outer quotes is
  \<open>json_escape s\<close>, and the canonical serializer writes a string value \<open>s\<close> as
  \<open>json_escape s\<close> between quotes, alone and as the value of either free-text field.
  (In the literal rendering the escaped compose text is then subject to the second
  replacement, see C2.)
\<close>

theorem escaping_is_the_same_on_both_paths:
  \<open>json_dumps rt (ascii '', '') (ascii '': '') (PStr s) = Inr (encode_basestring s) \<and>
   slice_1_m1 (encode_basestring s) = json_escape s \<and>
   to_deterministic_json rt (PStr s) = Inr (0x22 # json_escape s @ [0x22]) \<and>
   to_dstack_format_json rt
     [(KStr (ascii ''docker_compose_file''), PStr s),
      (KStr (ascii ''pre_launch_script''), PStr t)] =
     Inr (our_formatted_json
            (replace_scan (ascii ''PRE_LAUNCH_SCRIPT'') (json_escape t) (json_escape s))
            (json_escape t) default_salt) \<and>
   to_deterministic_json rt
     (PDict [(KStr (ascii ''docker_compose_file''), PStr s),
             (KStr (ascii ''pre_launch_script''), PStr t)]) =
     Inr (ascii ''{"docker_compose_file":"'' @ json_escape s @
          ascii ''","pre_launch_script":"'' @ json_escape t @ ascii ''"}'')\<close>
proof -
  have \<open>to_deterministic_json rt
     (PDict [(KStr (ascii ''docker_compose_file''), PStr s),
             (KStr (ascii ''pre_launch_script''), PStr t)]) =
     Inr (ascii ''{"docker_compose_file":"'' @ json_escape s @
          ascii ''","pre_launch_script":"'' @ json_escape t @ ascii ''"}'')\<close>
    by (simp add: to_deterministic_json_def sort_two_fields encode_basestring_def key_str_def)
      (simp add: ascii_def json_escape_def escape_char_def)
  moreover have "to_deterministic_json rt (PStr s) = Inr (0x22 # json_escape s @ [0x22])"
    by (simp add: to_deterministic_json_def encode_basestring_def)
  moreover have "to_dstack_format_json rt
     [(KStr (ascii ''docker_compose_file''), PStr s),
      (KStr (ascii ''pre_launch_script''), PStr t)] =
     Inr (our_formatted_json
            (replace_scan (ascii ''PRE_LAUNCH_SCRIPT'') (json_escape t) (json_escape s))
            (json_escape t) default_salt)"
    by (rule to_dstack_format_json_strings) simp_all
  ultimately show ?thesis by simp
qed

section \<open>The canonical serializer\<close>

lemma mapM_exn_Inr_iff:
  "mapM_exn f xs = Inr ys \<longleftrightarrow> list_all2 (\<lambda>x y. f x = Inr y) xs ys"
proof (induction xs arbitrary: ys)
  case Nil
  then show ?case by auto
next
  case (Cons x xs)
  show ?case
  proof (cases "f x")
    case (Inl e)
    then show ?thesis by (cases ys) auto
  next
    case fx: (Inr y)
    show ?thesis
    proof (cases "mapM_exn f xs")
      case (Inl e)
      then have "\<not> list_all2 (\<lambda>x y. f x = Inr y) xs zs" for zs
        using Cons[of zs] by simp
      then show ?thesis using Inl fx by (cases ys) auto
    next
      case (Inr zs)
      then have "list_all2 (\<lambda>x y. f x = Inr y) xs zs' \<longleftrightarrow> zs' = zs" for zs'
        using Cons[of zs'] by auto
      then show ?thesis using Inr fx by (cases ys) auto
    qed
  qed
qed


lemma mapM_exn_map: "mapM_exn f (map g xs) = mapM_exn (\<lambda>x. f (g x)) xs"
  by (induction xs) (simp_all split: sum.splits)


subsection \<open>When \<open>json_dumps\<close> succeeds\<close>









subsection \<open>When \<open>sort_object\<close> succeeds\<close>












subsection \<open>The boundary of what the serializer accepts\<close>




lemma small_int_str [simp]:
  "length (digits (nat \<bar>i\<bar>)) \<le> 4300 \<Longrightarrow> int_str example_runtime i = Inr (int_repr i)"
  by (simp add: int_str_def example_runtime_def example_deployed_def del: digits.simps)




subsection \<open>Non-finite floats\<close>

lemma float_ne_self: "float_ne w w = is_nan w"
  by (auto simp: float_ne_def float_eq_def)

lemma float_eq_pos_inf: "\<not> is_nan w \<Longrightarrow> float_eq w pos_inf = (w = pos_inf)"
  by (simp add: float_eq_def is_nan_def is_zero_def pos_inf_def)

lemma float_eq_neg_inf: "\<not> is_nan w \<Longrightarrow> float_eq w neg_inf = (w = neg_inf)"
  by (simp add: float_eq_def is_nan_def is_zero_def neg_inf_def)

lemma convert_special_values_float:
  "convert_special_values (PFloat w) = (if is_nonfinite w then PNone else PFloat w)"
  by (auto simp: float_ne_self float_eq_pos_inf float_eq_neg_inf is_nonfinite_def)

lemma process_data_nonfinite_to_null: "process_data v = nonfinite_to_null v"
  by (induction v rule: process_data.induct)
    (simp_all add: convert_special_values_float del: convert_special_values.simps(1))

subsection \<open>Sorting commutes with the replacement of non-finite floats\<close>

lemma mapM_exn_map_sum:
  "mapM_exn (\<lambda>x. map_sum id g (f x)) xs = map_sum id (map g) (mapM_exn f xs)"
  by (induction xs) (auto split: sum.splits)

lemma insort_key_map_values:
  "insort_key (\<lambda>kv. g (fst kv)) (fst x, f (snd x)) (map (\<lambda>kv. (fst kv, f (snd kv))) xs) =
     map (\<lambda>kv. (fst kv, f (snd kv))) (insort_key (\<lambda>kv. g (fst kv)) x xs)"
  by (induction xs) simp_all

lemma sort_key_map_values:
  "sort_key (\<lambda>kv. g (fst kv)) (map (\<lambda>kv. (fst kv, f (snd kv))) kvs) =
     map (\<lambda>kv. (fst kv, f (snd kv))) (sort_key (\<lambda>kv. g (fst kv)) kvs)"
  by (induction kvs) (simp_all add: insort_key_map_values)

lemma sorted_items_map_values:
  "sorted_items (map (\<lambda>kv. (fst kv, f (snd kv))) kvs) =
     map_sum id (map (\<lambda>kv. (fst kv, f (snd kv)))) (sorted_items kvs)"
  by (simp add: sorted_items_def sort_key_map_values list_all_iff)

lemma sort_object_nonfinite_to_null:
  "sort_object (nonfinite_to_null v) = map_sum id nonfinite_to_null (sort_object v)"
proof (induction v rule: sort_object.induct)
  case (2 xs)
  have "mapM_exn sort_object (map nonfinite_to_null xs) =
        mapM_exn (\<lambda>x. map_sum id nonfinite_to_null (sort_object x)) xs"
    unfolding mapM_exn_map using 2 by (intro mapM_exn_cong) (auto simp: id_def)
  then show ?case
    by (auto simp: mapM_exn_map_sum split: sum.splits)
next
  case (3 kvs)
  let ?h = "\<lambda>kv. (fst kv, nonfinite_to_null (snd kv))"
  let ?F = "\<lambda>kv. case sort_object (snd kv) of Inl e \<Rightarrow> Inl e | Inr v \<Rightarrow> Inr (fst kv, v)"
  show ?case
  proof (cases "sorted_items kvs")
    case (Inl e)
    then show ?thesis by (simp add: sorted_items_map_values)
  next
    case (Inr s)
    have "mapM_exn ?F (map ?h s) = mapM_exn (\<lambda>kv. map_sum id ?h (?F kv)) s"
      unfolding mapM_exn_map
    proof (intro mapM_exn_cong refl)
      fix kv assume "kv \<in> set s"
      then have "sort_object (nonfinite_to_null (snd kv)) =
                 map_sum id nonfinite_to_null (sort_object (snd kv))"
        using 3[OF Inr] by (simp add: id_def)
      then show "?F (?h kv) = map_sum id ?h (?F kv)"
        by (auto split: sum.splits)
    qed
    then have "mapM_exn ?F (map ?h s) = map_sum id (map ?h) (mapM_exn ?F s)"
      by (simp add: mapM_exn_map_sum)
    then show ?thesis using Inr
      by (auto simp: sorted_items_map_values split: sum.splits)
  qed
qed (simp_all add: is_nonfinite_def)

lemma nonfinite_to_null_idem: "nonfinite_to_null (nonfinite_to_null v) = nonfinite_to_null v"
  by (induction v rule: nonfinite_to_null.induct) simp_all

lemma to_deterministic_json_alt:
  "to_deterministic_json rt v =
     (case sort_object v of
        Inl e \<Rightarrow> Inl e
      | Inr s \<Rightarrow> json_dumps rt (ascii '','') (ascii '':'') (nonfinite_to_null s))"
  by (simp add: to_deterministic_json_def process_data_nonfinite_to_null Let_def
      split: sum.splits)

lemma to_deterministic_json_nonfinite_to_null:
  "to_deterministic_json rt (nonfinite_to_null v) = to_deterministic_json rt v"
  by (cases "sort_object v")
    (simp_all add: to_deterministic_json_alt sort_object_nonfinite_to_null nonfinite_to_null_idem)

lemma sort_singleton: "sorted_items [(KStr k, v)] = Inr [(KStr k, v)]"
  by (simp add: sorted_items_def is_KStr_def)

lemma canonical_x_null:
  \<open>to_deterministic_json rt (PDict [(KStr (ascii ''x''), PNone)]) = Inr (ascii ''{"x":null}'')\<close>
  by (simp add: to_deterministic_json_def sort_singleton encode_basestring_def key_str_def
      json_escape_def escape_char_def ascii_def)

text \<open>
  C6. The canonical serializer writes null for every NaN and every infinity, at every
  depth: its output is the serialization of the sorted value in which these floats are
  replaced by null, so a value and the value with the replacement already made have the
  same output. In particular \<open>{"x": NaN}\<close> and \<open>{"x": null}\<close> both give \<open>{"x":null}\<close>.
\<close>

theorem nonfinite_floats_become_null:
  \<open>to_deterministic_json rt v =
     (case sort_object v of
        Inl e \<Rightarrow> Inl e
      | Inr s \<Rightarrow> json_dumps rt (ascii '','') (ascii '':'') (nonfinite_to_null s)) \<and>
   to_deterministic_json rt (nonfinite_to_null v) = to_deterministic_json rt v \<and>
   (is_nonfinite w \<longrightarrow>
      to_deterministic_json rt (PDict [(KStr (ascii ''x''), PFloat w)]) =
        Inr (ascii ''{"x":null}'')) \<and>
   to_deterministic_json rt (PDict [(KStr (ascii ''x''), PNone)]) = Inr (ascii ''{"x":null}'')\<close>
proof -
  have \<open>to_deterministic_json rt (PDict [(KStr (ascii ''x''), PFloat w)]) =
        Inr (ascii ''{"x":null}'')\<close> if "is_nonfinite w"
  proof -
    have "nonfinite_to_null (PDict [(KStr (ascii ''x''), PFloat w)]) =
          PDict [(KStr (ascii ''x''), PNone)]"
      using that by simp
    then show ?thesis
      using to_deterministic_json_nonfinite_to_null[of rt "PDict [(KStr (ascii ''x''), PFloat w)]"]
      by (simp add: canonical_x_null)
  qed
  then show ?thesis
    using to_deterministic_json_alt[of rt v] to_deterministic_json_nonfinite_to_null[of rt v]
      canonical_x_null[of rt]
    by simp
qed

theorem nonfinite_floats_become_null_witness:
  \<open>is_nonfinite 0x7FF8000000000000 \<and>
   to_deterministic_json example_runtime
     (PDict [(KStr (ascii ''x''), PFloat 0x7FF8000000000000)]) = Inr (ascii ''{"x":null}'') \<and>
   to_deterministic_json example_runtime (PDict [(KStr (ascii ''x''), PNone)]) =
     Inr (ascii ''{"x":null}'') \<and>
   to_deterministic_json example_runtime
     (nonfinite_to_null (PList [PFloat 0xFFF0000000000000, PDict [(KStr (ascii ''y''), PFloat 0x7FF0000000000000)]])) =
   to_deterministic_json example_runtime
     (PList [PFloat 0xFFF0000000000000, PDict [(KStr (ascii ''y''), PFloat 0x7FF0000000000000)]])\<close>
proof -
  have n: "is_nonfinite 0x7FF8000000000000"
    by (simp add: is_nonfinite_def is_nan_def)
  show ?thesis
    using n nonfinite_floats_become_null[of example_runtime
        "PList [PFloat 0xFFF0000000000000, PDict [(KStr (ascii ''y''), PFloat 0x7FF0000000000000)]]"
        "0x7FF8000000000000"]
    by simp
qed

subsection \<open>Sorting forgets the insertion order of keys\<close>

lemma mapM_exn_list_all2:
  "list_all2 (\<lambda>x y. f x = g y) xs ys \<Longrightarrow> mapM_exn f xs = mapM_exn g ys"
  by (induction rule: list_all2_induct) (auto split: sum.splits)

lemma same_keys:
  assumes d: "distinct (map fst a)"
    and l: "length a = length b"
    and k: "\<And>kv. kv \<in> set a \<Longrightarrow> map_of b (fst kv) \<noteq> None"
  shows "fst ` set a = fst ` set b" and "distinct (map fst b)"
proof -
  have sub: "fst ` set a \<subseteq> fst ` set b"
    using k by (auto simp: map_of_eq_None_iff)
  have ca: "card (fst ` set a) = length a"
    using d distinct_card[of "map fst a"] by simp
  have cb: "card (fst ` set b) \<le> length b"
    using card_length[of "map fst b"] by simp
  show eq: "fst ` set a = fst ` set b"
    by (rule card_seteq) (use sub ca cb l in auto)
  have "card (set (map fst b)) = length (map fst b)"
    using eq ca l by simp
  then show "distinct (map fst b)" by (rule card_distinct)
qed

lemma map_fst_insort_key:
  "map fst (insort_key (\<lambda>kv. g (fst kv)) x xs) = insort_key g (fst x) (map fst xs)"
  by (induction xs) simp_all

lemma map_fst_sort_key:
  "map fst (sort_key (\<lambda>kv. g (fst kv)) xs) = sort_key g (map fst xs)"
  by (induction xs) (simp_all add: map_fst_insort_key)

lemma sort_key_unique:
  assumes "distinct ks" and "distinct ks'" and "set ks = set ks'" and "inj_on g (set ks)"
  shows "sort_key g ks = sort_key g ks'"
proof (rule map_sorted_distinct_set_unique[of g])
  show "inj_on g (set (sort_key g ks) \<union> set (sort_key g ks'))" using assms by simp
  show "sorted (map g (sort_key g ks))" "sorted (map g (sort_key g ks'))"
    by (rule sorted_sort_key)+
  show "distinct (map g (sort_key g ks))" using assms by (simp add: distinct_map)
  show "distinct (map g (sort_key g ks'))" using assms by (simp add: distinct_map)
  show "set (sort_key g ks) = set (sort_key g ks')" using assms by simp
qed

lemma inj_on_str_of_key: "\<forall>k\<in>K. is_KStr k \<Longrightarrow> inj_on str_of_key K"
  by (auto simp: inj_on_def is_KStr_def str_of_key_def split: pykey.splits)

lemma inj_on_int_of_key: "\<forall>k\<in>K. is_KInt k \<Longrightarrow> inj_on int_of_key K"
  by (auto simp: inj_on_def is_KInt_def int_of_key_def split: pykey.splits)

lemma sorted_items_same_keys:
  assumes "distinct (map fst a)" and "distinct (map fst b)" and "fst ` set a = fst ` set b"
  shows "map_sum id (map fst) (sorted_items a) = map_sum id (map fst) (sorted_items b)"
proof -
  have s: "list_all (\<lambda>kv. P (fst kv)) a = list_all (\<lambda>kv. P (fst kv)) b" for P
  proof -
    have "(\<forall>kv\<in>set a. P (fst kv)) \<longleftrightarrow> (\<forall>k\<in>fst ` set a. P k)" by blast
    also have "\<dots> \<longleftrightarrow> (\<forall>k\<in>fst ` set b. P k)" by (simp only: assms(3))
    also have "\<dots> \<longleftrightarrow> (\<forall>kv\<in>set b. P (fst kv))" by blast
    finally show ?thesis by (simp add: list_all_iff)
  qed
  have set: "set (map fst a) = set (map fst b)" using assms(3) by simp
  show ?thesis
  proof (cases "list_all (\<lambda>kv. is_KStr (fst kv)) a")
    case True
    then have "inj_on str_of_key (set (map fst a))"
      by (intro inj_on_str_of_key) (auto simp: list_all_iff)
    then have "sort_key str_of_key (map fst a) = sort_key str_of_key (map fst b)"
      using assms(1,2) set by (intro sort_key_unique)
    then show ?thesis using True s[of is_KStr]
      by (simp add: sorted_items_def map_fst_sort_key)
  next
    case False
    show ?thesis
    proof (cases "list_all (\<lambda>kv. is_KInt (fst kv)) a")
      case True
      then have "inj_on int_of_key (set (map fst a))"
        by (intro inj_on_int_of_key) (auto simp: list_all_iff)
      then have "sort_key int_of_key (map fst a) = sort_key int_of_key (map fst b)"
        using assms(1,2) set by (intro sort_key_unique)
      then show ?thesis using True False s[of is_KStr] s[of is_KInt]
        by (simp add: sorted_items_def map_fst_sort_key)
    next
      case F2: False
      then show ?thesis using False s[of is_KStr] s[of is_KInt]
        by (simp add: sorted_items_def)
    qed
  qed
qed

lemma sorted_items_lookup:
  assumes "distinct (map fst a)" and "sorted_items a = Inr sa"
  shows "sa = map (\<lambda>k. (k, the (map_of a k))) (map fst sa)"
proof -
  have "set sa = set a" using assms(2) by (rule sorted_items_set)
  then have "map_of a (fst kv) = Some (snd kv)" if "kv \<in> set sa" for kv
    using that assms(1) by (cases kv) simp
  then have "map (\<lambda>kv. (fst kv, the (map_of a (fst kv)))) sa = map (\<lambda>kv. kv) sa"
    by (intro map_cong refl) simp
  then show ?thesis by (simp add: comp_def)
qed

lemma sort_object_key_order:
  "wf_value v \<Longrightarrow> same_upto_key_order v v' \<Longrightarrow> sort_object v = sort_object v'"
proof (induction v arbitrary: v' rule: sort_object.induct)
  case (2 xs)
  from 2(3) obtain ys where ys: "v' = PList ys" "list_all2 same_upto_key_order xs ys"
    by (cases v') auto
  from ys(2) have "list_all2 (\<lambda>x y. sort_object x = sort_object y) xs ys"
  proof (rule list.rel_mono_strong)
    fix x y assume "x \<in> set xs" "same_upto_key_order x y"
    then show "sort_object x = sort_object y"
      using 2(1)[of x y] 2(2) by (simp add: list_all_iff)
  qed
  then have "mapM_exn sort_object xs = mapM_exn sort_object ys"
    by (rule mapM_exn_list_all2)
  then show ?case using ys(1) by simp
next
  case (3 a)
  let ?F = "\<lambda>kv. case sort_object (snd kv) of Inl e \<Rightarrow> Inl e | Inr v \<Rightarrow> Inr (fst kv, v)"
  from 3(3) obtain b where b: "v' = PDict b" "length a = length b"
    "list_all (\<lambda>kv. case map_of b (fst kv) of None \<Rightarrow> False
                    | Some w \<Rightarrow> same_upto_key_order (snd kv) w) a"
    by (cases v') auto
  have da: "distinct (map fst a)" and wfa: "\<And>kv. kv \<in> set a \<Longrightarrow> wf_value (snd kv)"
    using 3(2) by (simp_all add: list_all_iff)
  have look: "\<exists>w. map_of b (fst kv) = Some w \<and> same_upto_key_order (snd kv) w"
    if "kv \<in> set a" for kv
    using b(3) that by (auto simp: list_all_iff split: option.splits)
  have nn: "map_of b (fst kv) \<noteq> None" if "kv \<in> set a" for kv
    using look[OF that] by auto
  have keys: "fst ` set a = fst ` set b"
    using da b(2) nn by (rule same_keys(1))
  have db: "distinct (map fst b)"
    using da b(2) nn by (rule same_keys(2))
  have sk: "map_sum id (map fst) (sorted_items a) = map_sum id (map fst) (sorted_items b)"
    using da db keys by (rule sorted_items_same_keys)
  show ?case
  proof (cases "sorted_items a")
    case (Inl e)
    then obtain e' where "sorted_items b = Inl e'" "e' = e"
      using sk by (cases "sorted_items b") auto
    then show ?thesis using Inl b(1) by simp
  next
    case (Inr sa)
    then obtain sb where sb: "sorted_items b = Inr sb" "map fst sb = map fst sa"
      using sk by (cases "sorted_items b") auto
    have seta: "set sa = set a" using Inr by (rule sorted_items_set)
    have la: "sa = map (\<lambda>k. (k, the (map_of a k))) (map fst sa)"
      using da Inr by (rule sorted_items_lookup)
    have lb: "sb = map (\<lambda>k. (k, the (map_of b k))) (map fst sa)"
      using sorted_items_lookup[OF db sb(1)] sb(2) by simp
    have "mapM_exn ?F (map (\<lambda>k. (k, the (map_of a k))) (map fst sa)) =
          mapM_exn ?F (map (\<lambda>k. (k, the (map_of b k))) (map fst sa))"
      unfolding mapM_exn_map
    proof (intro mapM_exn_cong refl)
      fix kv assume kv: "kv \<in> set sa"
      then have ina: "kv \<in> set a" using seta by simp
      have ma: "map_of a (fst kv) = Some (snd kv)"
        using ina by (simp add: map_of_eq_Some_iff[OF da])
      from look[OF ina] obtain w where
        w: "map_of b (fst kv) = Some w" "same_upto_key_order (snd kv) w"
        by auto
      have "sort_object (snd kv) = sort_object w"
        using 3(1)[OF Inr kv wfa[OF ina] w(2)] .
      then show "?F (fst kv, the (map_of a (fst kv))) = ?F (fst kv, the (map_of b (fst kv)))"
        using ma w(1) by (simp split: sum.splits)
    qed
    then have "mapM_exn ?F sa = mapM_exn ?F sb"
      using la lb by simp
    then show ?thesis using Inr sb(1) b(1) by simp
  qed
qed (auto)


lemma key_le_str: "is_KStr k \<Longrightarrow> is_KStr k' \<Longrightarrow> key_le k k' = (str_of_key k \<le> str_of_key k')"
  by (cases k; cases k') (simp_all add: is_KStr_def str_of_key_def)

lemma key_le_int: "is_KInt k \<Longrightarrow> is_KInt k' \<Longrightarrow> key_le k k' = (int_of_key k \<le> int_of_key k')"
  by (cases k; cases k') (simp_all add: is_KInt_def int_of_key_def)

lemma sorted_items_sorted:
  assumes "sorted_items a = Inr s"
  shows "sorted_wrt key_le (map fst s)"
proof (cases "list_all (\<lambda>kv. is_KStr (fst kv)) a")
  case True
  then have s: "s = sort_key (\<lambda>kv. str_of_key (fst kv)) a"
    using assms by (simp add: sorted_items_def)
  have "sorted (map (\<lambda>kv. str_of_key (fst kv)) s)"
    unfolding s by (rule sorted_sort_key)
  then have A: "sorted_wrt (\<lambda>k k'. str_of_key k \<le> str_of_key k') (map fst s)"
    by (simp add: sorted_wrt_map)
  have B: "\<forall>k\<in>set (map fst s). is_KStr k"
    using True unfolding s by (auto simp: list_all_iff)
  show ?thesis
  proof (rule sorted_wrt_mono_rel[OF _ A])
    fix x y
    assume "x \<in> set (map fst s)" "y \<in> set (map fst s)" "str_of_key x \<le> str_of_key y"
    moreover from this B have "is_KStr x" "is_KStr y" by blast+
    ultimately show "key_le x y" by (simp add: key_le_str)
  qed
next
  case False
  then have i: "list_all (\<lambda>kv. is_KInt (fst kv)) a"
    using assms by (auto simp: sorted_items_def split: if_splits)
  then have s: "s = sort_key (\<lambda>kv. int_of_key (fst kv)) a"
    using assms False by (simp add: sorted_items_def)
  have "sorted (map (\<lambda>kv. int_of_key (fst kv)) s)"
    unfolding s by (rule sorted_sort_key)
  then have A: "sorted_wrt (\<lambda>k k'. int_of_key k \<le> int_of_key k') (map fst s)"
    by (simp add: sorted_wrt_map)
  have B: "\<forall>k\<in>set (map fst s). is_KInt k"
    using i unfolding s by (auto simp: list_all_iff)
  show ?thesis
  proof (rule sorted_wrt_mono_rel[OF _ A])
    fix x y
    assume "x \<in> set (map fst s)" "y \<in> set (map fst s)" "int_of_key x \<le> int_of_key y"
    moreover from this B have "is_KInt x" "is_KInt y" by blast+
    ultimately show "key_le x y" by (simp add: key_le_int)
  qed
qed

lemma sorted_items_distinct:
  assumes "sorted_items a = Inr s" and "distinct (map fst a)"
  shows "distinct (map fst s)"
  using assms by (auto simp: sorted_items_def map_fst_sort_key split: if_splits)

lemma sorted_items_length: "sorted_items a = Inr s \<Longrightarrow> length s = length a"
  by (auto simp: sorted_items_def split: if_splits)

lemma dict_values_sorted:
  assumes "list_all2 (\<lambda>x y. (case sort_object (snd x) of Inl e \<Rightarrow> Inl e
                              | Inr v \<Rightarrow> Inr (fst x, v)) = Inr y) s s'"
  shows "map fst s' = map fst s"
    and "list_all2 (\<lambda>x y. sort_object (snd x) = Inr (snd y)) s s'"
  using assms by (induction rule: list_all2_induct) (auto split: sum.splits)

lemma sort_object_keys_sorted: "sort_object v = Inr w \<Longrightarrow> keys_sorted w"
proof (induction v arbitrary: w rule: sort_object.induct)
  case (2 xs)
  then obtain ys where ys: "mapM_exn sort_object xs = Inr ys" "w = PList ys"
    by (auto split: sum.splits)
  then have "list_all2 (\<lambda>x y. sort_object x = Inr y) xs ys"
    by (simp add: mapM_exn_Inr_iff)
  then have "list_all2 (\<lambda>x y. keys_sorted y) xs ys"
    by (rule list.rel_mono_strong) (use 2(1) in auto)
  then have "list_all keys_sorted ys"
    by (induction rule: list_all2_induct) auto
  then show ?case using ys by simp
next
  case (3 a)
  let ?F = "\<lambda>kv. case sort_object (snd kv) of Inl e \<Rightarrow> Inl e | Inr v \<Rightarrow> Inr (fst kv, v)"
  from 3(2) obtain s s' where s: "sorted_items a = Inr s" "mapM_exn ?F s = Inr s'" "w = PDict s'"
    by (auto split: sum.splits)
  have L: "list_all2 (\<lambda>x y. ?F x = Inr y) s s'"
    using s(2) by (simp add: mapM_exn_Inr_iff)
  have k: "map fst s' = map fst s" and v: "list_all2 (\<lambda>x y. sort_object (snd x) = Inr (snd y)) s s'"
    using dict_values_sorted[OF L] by auto
  from v have "list_all2 (\<lambda>x y. keys_sorted (snd y)) s s'"
    by (rule list.rel_mono_strong) (use 3(1)[OF s(1)] in auto)
  then have "list_all (\<lambda>kv. keys_sorted (snd kv)) s'"
    by (induction rule: list_all2_induct) auto
  then show ?case using s(3) k sorted_items_sorted[OF s(1)] by simp
qed auto

lemma sort_object_same: "wf_value v \<Longrightarrow> sort_object v = Inr w \<Longrightarrow> same_upto_key_order v w"
proof (induction v arbitrary: w rule: sort_object.induct)
  case (2 xs)
  then obtain ys where ys: "mapM_exn sort_object xs = Inr ys" "w = PList ys"
    by (auto split: sum.splits)
  then have "list_all2 (\<lambda>x y. sort_object x = Inr y) xs ys"
    by (simp add: mapM_exn_Inr_iff)
  then have "list_all2 same_upto_key_order xs ys"
    by (rule list.rel_mono_strong) (use 2(1,2) in \<open>auto simp: list_all_iff\<close>)
  then show ?case using ys by simp
next
  case (3 a)
  let ?F = "\<lambda>kv. case sort_object (snd kv) of Inl e \<Rightarrow> Inl e | Inr v \<Rightarrow> Inr (fst kv, v)"
  from 3(3) obtain s s' where s: "sorted_items a = Inr s" "mapM_exn ?F s = Inr s'" "w = PDict s'"
    by (auto split: sum.splits)
  have da: "distinct (map fst a)" and wfa: "\<And>kv. kv \<in> set a \<Longrightarrow> wf_value (snd kv)"
    using 3(2) by (simp_all add: list_all_iff)
  have L: "list_all2 (\<lambda>x y. ?F x = Inr y) s s'"
    using s(2) by (simp add: mapM_exn_Inr_iff)
  have k: "map fst s' = map fst s" and v: "list_all2 (\<lambda>x y. sort_object (snd x) = Inr (snd y)) s s'"
    using dict_values_sorted[OF L] by auto
  have ds': "distinct (map fst s')"
    using k sorted_items_distinct[OF s(1) da] by simp
  have len: "length a = length s'"
    using sorted_items_length[OF s(1)] list_all2_lengthD[OF L] by simp
  have set: "set s = set a" using s(1) by (rule sorted_items_set)
  have "case map_of s' (fst kv) of None \<Rightarrow> False
        | Some v' \<Rightarrow> same_upto_key_order (snd kv) v'" if "kv \<in> set a" for kv
  proof -
    have "kv \<in> set s" using that set by simp
    then obtain i where i: "i < length s" "s ! i = kv"
      by (auto simp: in_set_conv_nth)
    then have F: "?F kv = Inr (s' ! i)" and i': "i < length s'"
      using L by (auto simp: list_all2_conv_all_nth)
    then obtain w' where w': "sort_object (snd kv) = Inr w'" "s' ! i = (fst kv, w')"
      by (auto split: sum.splits)
    then have "(fst kv, w') \<in> set s'" using i' by (metis nth_mem)
    then have "map_of s' (fst kv) = Some w'"
      by (simp add: map_of_eq_Some_iff[OF ds'])
    moreover have "same_upto_key_order (snd kv) w'"
      using 3(1)[OF s(1) _ wfa[OF that] w'(1)] that set by simp
    ultimately show ?thesis by simp
  qed
  then show ?case using s(3) len by (simp add: list_all_iff)
qed auto


text \<open>
  C5. Key-order invariance of the canonical serializer: two values that are the same up
  to the insertion order of the keys of their mappings, at any depth and also inside
  sequences, have the same canonical output. In the value that is serialized the keys
  of every mapping are in sorted order (strings by code point), and it is the input up
  to key order, so sequences keep the order of their elements.
\<close>

theorem canonical_form_ignores_key_order:
  assumes "wf_value v" and "same_upto_key_order v v'"
  shows "to_deterministic_json rt v = to_deterministic_json rt v' \<and>
         (\<forall>w. sort_object v = Inr w \<longrightarrow>
            keys_sorted w \<and> same_upto_key_order v w \<and>
            to_deterministic_json rt v =
              json_dumps rt (ascii '','') (ascii '':'') (process_data w))"
proof -
  have "sort_object v = sort_object v'"
    using assms by (rule sort_object_key_order)
  then have "to_deterministic_json rt v = to_deterministic_json rt v'"
    by (simp add: to_deterministic_json_def)
  moreover have "keys_sorted w \<and> same_upto_key_order v w \<and>
      to_deterministic_json rt v = json_dumps rt (ascii '','') (ascii '':'') (process_data w)"
    if "sort_object v = Inr w" for w
    using that sort_object_keys_sorted[OF that] sort_object_same[OF assms(1) that]
    by (simp add: to_deterministic_json_def)
  ultimately show ?thesis by blast
qed

theorem canonical_form_ignores_key_order_witness:
  \<open>to_deterministic_json example_runtime
     (PDict [(KStr (ascii ''b''), PInt 1),
             (KStr (ascii ''a''),
                PList [PDict [(KStr (ascii ''z''), PNone), (KStr (ascii ''y''), PBool True)],
                       PInt 0])]) =
   to_deterministic_json example_runtime
     (PDict [(KStr (ascii ''a''),
                PList [PDict [(KStr (ascii ''y''), PBool True), (KStr (ascii ''z''), PNone)],
                       PInt 0]),
             (KStr (ascii ''b''), PInt 1)]) \<and>
   sort_object
     (PDict [(KStr (ascii ''b''), PInt 1),
             (KStr (ascii ''a''),
                PList [PDict [(KStr (ascii ''z''), PNone), (KStr (ascii ''y''), PBool True)],
                       PInt 0])]) =
   Inr (PDict [(KStr (ascii ''a''),
                PList [PDict [(KStr (ascii ''y''), PBool True), (KStr (ascii ''z''), PNone)],
                       PInt 0]),
             (KStr (ascii ''b''), PInt 1)]) \<and>
   keys_sorted
     (PDict [(KStr (ascii ''a''),
                PList [PDict [(KStr (ascii ''y''), PBool True), (KStr (ascii ''z''), PNone)],
                       PInt 0]),
             (KStr (ascii ''b''), PInt 1)]) \<and>
   to_deterministic_json example_runtime
     (PDict [(KStr (ascii ''b''), PInt 1),
             (KStr (ascii ''a''),
                PList [PDict [(KStr (ascii ''z''), PNone), (KStr (ascii ''y''), PBool True)],
                       PInt 0])]) =
   Inr (ascii ''{"a":[{"y":true,"z":null},0],"b":1}'')\<close>
proof -
  define v where "v = PDict [(KStr (ascii ''b''), PInt 1),
             (KStr (ascii ''a''),
                PList [PDict [(KStr (ascii ''z''), PNone), (KStr (ascii ''y''), PBool True)],
                       PInt 0])]"
  define v' where "v' = PDict [(KStr (ascii ''a''),
                PList [PDict [(KStr (ascii ''y''), PBool True), (KStr (ascii ''z''), PNone)],
                       PInt 0]),
             (KStr (ascii ''b''), PInt 1)]"
  have wf: "wf_value v"
    by (simp add: v_def)
  have same: "same_upto_key_order v v'"
    by (simp add: v_def v'_def)
  have sorted: "sort_object v = Inr v'"
    by (simp add: v_def v'_def sorted_items_def is_KStr_def str_of_key_def ascii_def)
  have out: \<open>json_dumps example_runtime (ascii '','') (ascii '':'') (process_data v') =
      Inr (ascii ''{"a":[{"y":true,"z":null},0],"b":1}'')\<close>
    by (simp add: v'_def encode_basestring_def key_str_def json_escape_def escape_char_def
        int_repr_def ascii_def)
  from canonical_form_ignores_key_order[OF wf same, of example_runtime] sorted
  have 1: "to_deterministic_json example_runtime v = to_deterministic_json example_runtime v'"
    and 2: "keys_sorted v'"
    and 3: "to_deterministic_json example_runtime v =
            json_dumps example_runtime (ascii '','') (ascii '':'') (process_data v')"
    by blast+
  show ?thesis
    unfolding v_def[symmetric] v'_def[symmetric]
    using 1 2 sorted 3[unfolded out] by (intro conjI)
qed

end
